theory Spec2Isabelle
  imports Main "HOL-Library.Word" "HOL-Library.Signed_Division"
begin

section \<open>Shared vocabulary of package dev\<close>

text \<open>
  The error values of \<^verbatim>\<open>dev/errors.go\<close>. In Go they are constants of the string type
  \<^verbatim>\<open>Error\<close>; \<open>Error_msg\<close> is the method \<^verbatim>\<open>Error()\<close>.
\<close>

datatype Error =
    ErrDriverBusy
  | ErrInvalidStage
  | ErrInvalidPulseTrain
  | ErrPulseWidthExceeded
  | ErrInvalidPinMode
  | ErrInvalidPinChange
  | ErrSensePin

fun Error_msg :: "Error \<Rightarrow> string" where
  "Error_msg ErrDriverBusy = ''driver already active''"
| "Error_msg ErrInvalidStage = ''invalid stage index''"
| "Error_msg ErrInvalidPulseTrain = ''invalid pulse train''"
| "Error_msg ErrPulseWidthExceeded = ''pulse width exceeds maximum allowed''"
| "Error_msg ErrInvalidPinMode = ''invalid pin mode''"
| "Error_msg ErrInvalidPinChange = ''invalid pin change mode''"
| "Error_msg ErrSensePin = ''invalid sense pin value''"

text \<open>
  A Go call either returns, or panics (which ends the process unless recovered, and
  nothing in the package recovers), or blocks on a channel operation. The last two are
  the left summand of every result type below.
\<close>

datatype fault = Panic string | Blocked

text \<open>
  \<^verbatim>\<open>time.Duration\<close> and \<^verbatim>\<open>int64\<close> are 64-bit two's complement; \<^verbatim>\<open>int8\<close> is 8-bit.
  Values are kept as \<open>int\<close> and every operation that can leave the range wraps
  explicitly. Go's \<^verbatim>\<open>/\<close> and \<^verbatim>\<open>%\<close> truncate towards zero (\<open>sdiv\<close>, \<open>smod\<close>) and
  panic on a zero divisor.
\<close>

definition int64 :: "int \<Rightarrow> int" where
  "int64 x = (x + 2 ^ 63) mod 2 ^ 64 - 2 ^ 63"

definition int8 :: "int \<Rightarrow> int" where
  "int8 x = (x + 128) mod 256 - 128"

definition div64 :: "int \<Rightarrow> int \<Rightarrow> fault + int" where
  "div64 a b =
     (if b = 0 then Inl (Panic ''integer divide by zero'') else Inr (int64 (a sdiv b)))"

section \<open>Wait calibration (dev/apr-lin.go, second file)\<close>

text \<open>
  \<^verbatim>\<open>for b != 0 { a, b = b, a%b }; return a\<close>. The remainder of two \<^verbatim>\<open>int64\<close> values is
  again one, so no wrap is needed inside the loop.
\<close>

function Gcd_loop :: "int \<Rightarrow> int \<Rightarrow> int" where
  "Gcd_loop a b = (if b \<noteq> 0 then Gcd_loop b (a smod b) else a)"
  by pat_completeness auto
termination
proof (relation "measure (\<lambda>(a, b). nat \<bar>b\<bar>)")
  show "wf (measure (\<lambda>(a, b). nat \<bar>b\<bar>))" by simp
next
  fix a b :: int
  assume "b \<noteq> 0"
  with smod_int_range [of b a] have "\<bar>a smod b\<bar> < \<bar>b\<bar>" by auto
  then show "((b, a smod b), (a, b)) \<in> measure (\<lambda>(a, b). nat \<bar>b\<bar>)" by simp
qed

declare Gcd_loop.simps [simp del]

text \<open>\<^verbatim>\<open>func lcm(a, b int64) int64 { return a * b / Gcd(a, b) }\<close>\<close>

definition lcm64 :: "int \<Rightarrow> int \<Rightarrow> fault + int" where
  "lcm64 a b = div64 (int64 (a * b)) (Gcd_loop a b)"

text \<open>\<^verbatim>\<open>l := lcm(a, b); return l / a, l / b\<close>\<close>

definition scaleConstants :: "int \<Rightarrow> int \<Rightarrow> fault + (int \<times> int)" where
  "scaleConstants a b =
     (case lcm64 a b of
        Inl f \<Rightarrow> Inl f
      | Inr l \<Rightarrow>
          (case div64 l a of
             Inl f \<Rightarrow> Inl f
           | Inr k \<Rightarrow> (case div64 l b of Inl f \<Rightarrow> Inl f | Inr m \<Rightarrow> Inr (k, m))))"

text \<open>The two package-level variables \<^verbatim>\<open>WaitCalibrationK\<close> and \<^verbatim>\<open>WaitCalibrationM\<close>.\<close>

record calibration =
  WaitCalibrationK :: int
  WaitCalibrationM :: int

definition default_calibration :: calibration where
  "default_calibration = \<lparr>WaitCalibrationK = 80339, WaitCalibrationM = 1000000\<rparr>"

text \<open>
  \<^verbatim>\<open>k, m := scaleConstants(int64(actual), int64(wanted))\<close>, then both variables are
  assigned. A panic leaves them as they were.
\<close>

definition SetWaitCalibration :: "int \<Rightarrow> int \<Rightarrow> calibration \<Rightarrow> fault + calibration" where
  "SetWaitCalibration wanted actual cal =
     (case scaleConstants actual wanted of
        Inl f \<Rightarrow> Inl f
      | Inr (k, m) \<Rightarrow> Inr (cal\<lparr>WaitCalibrationK := k, WaitCalibrationM := m\<rparr>))"

section \<open>Chronograph (dev/chrono.go)\<close>

text \<open>
  The four raw tick readings are \<^verbatim>\<open>uint64\<close>. The pins, the polarity, the gate distance
  (a float) and the velocity callback play no part in \<^verbatim>\<open>IsValid\<close> and \<^verbatim>\<open>Reset\<close> and are
  left out of the record.
\<close>

record Chronograph =
  timeStartA :: "64 word"
  timeStartB :: "64 word"
  timeEndA :: "64 word"
  timeEndB :: "64 word"

definition IsValid :: "Chronograph \<Rightarrow> bool" where
  "IsValid c \<longleftrightarrow>
     ((timeStartA c \<noteq> 0) \<and> (timeEndA c \<noteq> 0) \<and> (timeStartB c \<noteq> 0) \<and> (timeEndB c \<noteq> 0)) \<or>
     ((timeStartA c = 0) \<and> (timeEndA c = 0) \<and> (timeStartB c = 0) \<and> (timeEndB c = 0))"

definition Chronograph_Reset :: "Chronograph \<Rightarrow> Chronograph" where
  "Chronograph_Reset c = c\<lparr>timeStartA := 0, timeEndA := 0, timeStartB := 0, timeEndB := 0\<rparr>"

text \<open>How many of the four timestamps (A-enter, A-exit, B-enter, B-exit) are set.\<close>

definition nonzero_entries :: "Chronograph \<Rightarrow> nat" where
  "nonzero_entries c =
     length (filter (\<lambda>t. t \<noteq> 0) [timeStartA c, timeEndA c, timeStartB c, timeEndB c])"

section \<open>Pulse train (package dev, PulseTrain)\<close>

text \<open>
  \<^verbatim>\<open>type PulseTrain struct { durations []time.Duration; r uint32 }\<close>. Every method has a
  value receiver, so each call works on its own copy of the struct: a store to \<^verbatim>\<open>pt.r\<close>
  inside one call is not seen by any other call.
\<close>

record PulseTrain =
  durations :: "int list"
  r :: "32 word"

definition NewPulseTrain :: "int list \<Rightarrow> PulseTrain" where
  "NewPulseTrain d = \<lparr>durations = d, r = 0\<rparr>"

text \<open>
  The output pin is observed through the calls made on it, oldest first.
\<close>

datatype pin_call = High | Low

text \<open>
  \<^verbatim>\<open>func (pt PulseTrain) Abort(p machine.Pin) { p.Low(); atomic.StoreUint32(&pt.r, 1) }\<close>.
  The result is the callee's copy of the receiver after the store, and the pin.
\<close>

definition Abort :: "PulseTrain \<Rightarrow> pin_call list \<Rightarrow> PulseTrain \<times> pin_call list" where
  "Abort pt p = (pt\<lparr>r := 1\<rparr>, p @ [Low])"

text \<open>
  The loop of \<^verbatim>\<open>Run\<close> over \<^verbatim>\<open>pt.durations\<close>, from index \<open>i\<close> on. \<open>pt\<close> is the copy
  \<^verbatim>\<open>Run\<close> works on, \<open>p\<close> the pin, \<open>ts\<close> the named result \<^verbatim>\<open>triggerStart\<close>, \<open>now\<close> the
  reading \<^verbatim>\<open>Now()\<close> returns at index 1.

  \<^verbatim>\<open>Abort\<close> is called from the sense-pin interrupt handler, so it can arrive while
  \<^verbatim>\<open>Run\<close> is inside \<^verbatim>\<open>WaitCalibrated\<close>: \<open>aborts i\<close> says whether it arrives during the
  wait of segment \<open>i\<close>. The handler's call has its own copy of the pulse train; of its
  effects only the pin is shared with \<^verbatim>\<open>Run\<close>. The busy-wait itself changes nothing
  that is modelled here.
\<close>

fun Run_loop ::
  "(nat \<Rightarrow> bool) \<Rightarrow> int \<Rightarrow> nat \<Rightarrow> int list \<Rightarrow> PulseTrain \<Rightarrow> pin_call list \<Rightarrow> int
     \<Rightarrow> int \<times> pin_call list" where
  "Run_loop aborts now i [] pt p ts = (ts, p)"
| "Run_loop aborts now i (d # ds) pt p ts =
     (if r pt = 0 then (ts, p)
      else if i mod 2 = 0 then
        (let p1 = (if aborts i then snd (Abort pt p) else p)
         in Run_loop aborts now (i + 1) ds pt p1 ts)
      else
        (let ts1 = (if i = 1 then now else ts)
         in if r pt = 0 then (ts1, p)
            else
              (let p1 = p @ [High];
                   p2 = (if aborts i then snd (Abort pt p1) else p1);
                   p3 = p2 @ [Low]
               in Run_loop aborts now (i + 1) ds pt p3 ts1)))"

text \<open>
  \<^verbatim>\<open>func (pt PulseTrain) Run(p machine.Pin) (triggerStart time.Duration)\<close>: the flag of
  the copy is stored as 1, then the loop runs. The result is \<^verbatim>\<open>triggerStart\<close> and the pin.
\<close>

definition Run ::
  "(nat \<Rightarrow> bool) \<Rightarrow> int \<Rightarrow> PulseTrain \<Rightarrow> pin_call list \<Rightarrow> int \<times> pin_call list" where
  "Run aborts now pt p = Run_loop aborts now 0 (durations pt) (pt\<lparr>r := 1\<rparr>) p 0"

definition Durations :: "PulseTrain \<Rightarrow> int list" where
  "Durations pt = durations pt"

section \<open>Stages (dev/drive-shaped.go, drive-simple.go, drive-double-tap.go)\<close>

datatype State = Idle | Armed | Active | Done | Failed

text \<open>
  The two enumerations of package \<^verbatim>\<open>machine\<close> that \<^verbatim>\<open>Configure\<close> inspects. The package is
  not part of the repository; the constructors are the names the source compares with,
  and one more for every other mode.
\<close>

datatype PinMode = PinInput | PinInputPulldown | PinInputPullup | PinOutput | PinModeOther
datatype PinChange = PinRising | PinFalling | PinToggle

text \<open>
  \<^verbatim>\<open>ShapedPulseStage\<close>. Pins are pin numbers. The channel \<^verbatim>\<open>t\<close> is made with capacity 1
  and carries empty structs, so its content is the number of signals waiting in it.
\<close>

record ShapedPulseStage =
  trigger :: nat
  sense :: nat
  shape :: PulseTrain
  senseStart :: "64 word"
  senseEnd :: "64 word"
  triggerStart :: int
  triggerEnd :: int
  sstate :: State
  t :: nat
  val :: bool

text \<open>
  \<^verbatim>\<open>SetShape\<close>: fewer than two entries or an odd number of them is
  \<^verbatim>\<open>ErrInvalidPulseTrain\<close>, and the stage keeps its shape.
\<close>

definition SetShape :: "int list \<Rightarrow> ShapedPulseStage \<Rightarrow> Error option \<times> ShapedPulseStage" where
  "SetShape sh s =
     (if length sh < 2 \<or> length sh mod 2 \<noteq> 0 then (Some ErrInvalidPulseTrain, s)
      else (None, s\<lparr>shape := NewPulseTrain sh\<rparr>))"

text \<open>
  \<^verbatim>\<open>NewShapedPulseStage\<close>: the struct literal sets the pins, \<^verbatim>\<open>state: Idle\<close> and the
  channel; every other field has its zero value. An error of \<^verbatim>\<open>SetShape\<close> is passed to
  \<^verbatim>\<open>panic\<close>.
\<close>

definition NewShapedPulseStage :: "nat \<Rightarrow> nat \<Rightarrow> int list \<Rightarrow> fault + ShapedPulseStage" where
  "NewShapedPulseStage trig sens sh =
     (let ret = \<lparr>trigger = trig, sense = sens, shape = \<lparr>durations = [], r = 0\<rparr>,
                 senseStart = 0, senseEnd = 0, triggerStart = 0, triggerEnd = 0,
                 sstate = Idle, t = 0, val = False\<rparr>
      in case SetShape sh ret of
           (Some err, _) \<Rightarrow> Inl (Panic (Error_msg err))
         | (None, ret') \<Rightarrow> Inr ret')"

text \<open>
  \<^verbatim>\<open>SimpleStage\<close> and \<^verbatim>\<open>DoubleTapStage\<close> embed a \<^verbatim>\<open>*ShapedPulseStage\<close> and add nothing to
  it; their constructors pass two and four durations.
\<close>

definition NewSimpleStage :: "nat \<Rightarrow> nat \<Rightarrow> int \<Rightarrow> int \<Rightarrow> fault + ShapedPulseStage" where
  "NewSimpleStage trig sens delay duration = NewShapedPulseStage trig sens [delay, duration]"

definition NewDoubleTapStage ::
  "nat \<Rightarrow> nat \<Rightarrow> int \<Rightarrow> int \<Rightarrow> int \<Rightarrow> int \<Rightarrow> fault + ShapedPulseStage" where
  "NewDoubleTapStage trig sens firstDelay firstPulse secondDelay secondPulse =
     NewShapedPulseStage trig sens [firstDelay, firstPulse, secondDelay, secondPulse]"

text \<open>
  \<^verbatim>\<open>ShapedPulseStage.Configure\<close>: the checks of mode and edge, then the polarity is
  stored. Configuring the pins, starting the worker goroutine and installing the
  interrupt handler leave the record as it is.
\<close>

definition ShapedPulseStage_Configure ::
  "PinMode \<Rightarrow> PinChange \<Rightarrow> ShapedPulseStage \<Rightarrow> Error option \<times> ShapedPulseStage" where
  "ShapedPulseStage_Configure mode pc s =
     (if mode \<noteq> PinInput \<and> mode \<noteq> PinInputPulldown \<and> mode \<noteq> PinInputPullup
        then (Some ErrInvalidPinMode, s)
      else if pc = PinToggle then (Some ErrInvalidPinChange, s)
      else (None, s\<lparr>val := (pc = PinRising)\<rparr>))"

text \<open>
  \<^verbatim>\<open>ShapedPulseStage.Arm\<close>. \<open>pins\<close> gives the level each pin reads and \<open>ticks\<close> the
  reading of the tick counter. The send \<^verbatim>\<open>s.t <- struct{}{}\<close> is a plain channel send:
  with the one slot taken it does not complete until a receiver takes the waiting
  signal, and the call does not return before that. The only \<^verbatim>\<open>return\<close> is
  \<^verbatim>\<open>return nil\<close>.
\<close>

definition ShapedPulseStage_Arm ::
  "(nat \<Rightarrow> bool) \<Rightarrow> 64 word \<Rightarrow> ShapedPulseStage \<Rightarrow> fault + (Error option \<times> ShapedPulseStage)"
  where
  "ShapedPulseStage_Arm pins ticks s =
     (let s1 = s\<lparr>sstate := Armed\<rparr>
      in if pins (sense s1) = val s1 then
           (let s2 = s1\<lparr>senseStart := ticks\<rparr>
            in if t s2 < 1 then Inr (None, s2\<lparr>t := t s2 + 1\<rparr>) else Inl Blocked)
         else Inr (None, s1))"

text \<open>
  \<^verbatim>\<open>ShapedPulseStage.Reset\<close>: the \<^verbatim>\<open>select\<close> with a \<^verbatim>\<open>default\<close> branch takes one waiting
  signal if there is one, then state and timestamps are cleared.
\<close>

definition ShapedPulseStage_Reset :: "ShapedPulseStage \<Rightarrow> ShapedPulseStage" where
  "ShapedPulseStage_Reset s =
     s\<lparr>t := (if 0 < t s then t s - 1 else t s), sstate := Idle,
       senseStart := 0, senseEnd := 0, triggerStart := 0, triggerEnd := 0\<rparr>"

section \<open>Mass driver (dev/drive.go)\<close>

definition maxStages :: nat where
  "maxStages = 8"

text \<open>
  The two callbacks are supplied by the caller. What the driver does with them is call
  them: the record keeps whether each is non-nil, and \<open>calls\<close> lists the invocations,
  oldest first. \<^verbatim>\<open>doneCallback\<close> receives the slice \<^verbatim>\<open>d.timestamps\<close>; \<open>DoneCallback\<close>
  holds the elements of that slice at the moment of the call.
\<close>

datatype callback_call = ErrorCallback int Error | DoneCallback "int list"

text \<open>
  \<^verbatim>\<open>MassDriver\<close>, for stages of type \<open>'s\<close>. \<^verbatim>\<open>state\<close> and \<^verbatim>\<open>currentStage\<close> are
  \<^verbatim>\<open>atomic.Int32\<close>; what is stored in them is a \<^verbatim>\<open>State\<close> and an \<^verbatim>\<open>int8\<close>.
\<close>

record 's MassDriver =
  stages :: "'s list"
  timestamps :: "int list"
  currentStage :: int
  state :: State
  errorCallback :: bool
  doneCallback :: bool
  calls :: "callback_call list"

definition setState :: "State \<Rightarrow> int \<Rightarrow> 's MassDriver \<Rightarrow> 's MassDriver" where
  "setState s idx d =
     (let d1 = d\<lparr>state := s, currentStage := idx\<rparr>
      in if s = Done \<and> doneCallback d1
         then d1\<lparr>calls := calls d1 @ [DoneCallback (timestamps d1)]\<rparr>
         else d1)"

definition getState :: "'s MassDriver \<Rightarrow> State \<times> int" where
  "getState d = (state d, int8 (currentStage d))"

text \<open>
  \<^verbatim>\<open>NewMassDriver\<close>: the two length checks panic; otherwise the timestamps are
  \<^verbatim>\<open>make([]time.Duration, len(stages))\<close> and \<^verbatim>\<open>setState(Idle, -1)\<close> follows, which
  overwrites whatever the two atomics held in the struct literal.
\<close>

definition NewMassDriver :: "bool \<Rightarrow> bool \<Rightarrow> 's list \<Rightarrow> fault + 's MassDriver" where
  "NewMassDriver errorCb doneCb sts =
     (if maxStages < length sts then Inl (Panic ''Too many stages specified'')
      else if length sts = 0 then Inl (Panic ''Too few stages specified'')
      else Inr (setState Idle (- 1)
             \<lparr>stages = sts, timestamps = replicate (length sts) 0, currentStage = 0,
              state = Idle, errorCallback = errorCb, doneCallback = doneCb, calls = []\<rparr>))"

text \<open>
  The methods of the interface \<^verbatim>\<open>Stage\<close> are parameters of the driver's operations:
  \<open>arm\<close> for \<^verbatim>\<open>Arm() error\<close> and \<open>reset\<close> for \<^verbatim>\<open>Reset()\<close>. Indexing a slice out of its
  range panics.

  \<^verbatim>\<open>stageTriggered(stageIdx int8)\<close>:
\<close>

definition stageTriggered ::
  "('s \<Rightarrow> fault + (Error option \<times> 's)) \<Rightarrow> int \<Rightarrow> 's MassDriver \<Rightarrow> fault + 's MassDriver" where
  "stageTriggered arm stageIdx d =
     (let (st, stage) = getState d
      in if stage \<noteq> stageIdx then Inr (setState Failed stageIdx d)
         else if stage = 0 \<and> st \<noteq> Armed then Inr (setState Failed stageIdx d)
         else
           (let st1 = (if stage = 0 then Active else st)
            in if st1 \<noteq> Active then Inr (setState Failed stageIdx d)
               else
                 (let stage1 = int8 (stageIdx + 1)
                  in if stage1 < int8 (int (length (stages d))) then
                       (if stage1 < 0 \<or> length (stages d) \<le> nat stage1
                          then Inl (Panic ''index out of range'')
                        else
                          (case arm (stages d ! nat stage1) of
                             Inl f \<Rightarrow> Inl f
                           | Inr (err, s') \<Rightarrow>
                               Inr (setState (if err \<noteq> None then Failed else st1) stage1
                                      (d\<lparr>stages := (stages d)[nat stage1 := s']\<rparr>))))
                     else Inr (setState Done stage1 d))))"

text \<open>
  The closure that \<^verbatim>\<open>MassDriver.Configure\<close> hands to stage \<open>i\<close> as its completion
  callback: \<^verbatim>\<open>c.stageTriggered(int8(i)); c.timestamps[i] = when\<close>, in this order. The
  module is built as Go 1.23, where every iteration of the \<^verbatim>\<open>for\<close> loop has its own \<open>i\<close>.
\<close>

definition Configure_callback ::
  "('s \<Rightarrow> fault + (Error option \<times> 's)) \<Rightarrow> nat \<Rightarrow> int \<Rightarrow> 's MassDriver \<Rightarrow> fault + 's MassDriver"
  where
  "Configure_callback arm i when d =
     (case stageTriggered arm (int8 (int i)) d of
        Inl f \<Rightarrow> Inl f
      | Inr d1 \<Rightarrow>
          (if i < length (timestamps d1)
           then Inr (d1\<lparr>timestamps := (timestamps d1)[i := when]\<rparr>)
           else Inl (Panic ''index out of range'')))"

text \<open>
  \<^verbatim>\<open>MassDriver.Configure\<close>: every stage is configured in turn and the first error is
  returned; \<open>configure\<close> is the method \<^verbatim>\<open>Configure\<close> of the stages with mode and edge
  already applied.
\<close>

fun Configure_loop :: "('s \<Rightarrow> Error option \<times> 's) \<Rightarrow> 's list \<Rightarrow> Error option \<times> 's list" where
  "Configure_loop configure [] = (None, [])"
| "Configure_loop configure (s # ss) =
     (case configure s of
        (Some err, s') \<Rightarrow> (Some err, s' # ss)
      | (None, s') \<Rightarrow>
          (case Configure_loop configure ss of (e, ss') \<Rightarrow> (e, s' # ss')))"

definition Configure ::
  "('s \<Rightarrow> Error option \<times> 's) \<Rightarrow> 's MassDriver \<Rightarrow> Error option \<times> 's MassDriver" where
  "Configure configure d =
     (case Configure_loop configure (stages d) of (e, ss) \<Rightarrow> (e, d\<lparr>stages := ss\<rparr>))"

text \<open>
  \<^verbatim>\<open>MassDriver.Reset\<close>: \<^verbatim>\<open>setState(Idle, -1)\<close>, then for every stage index \<open>i\<close> the body
  \<^verbatim>\<open>d.stages[i].Reset(); d.timestamps[0] = 0\<close>.
\<close>

fun Reset_loop :: "('s \<Rightarrow> 's) \<Rightarrow> 's list \<Rightarrow> int list \<Rightarrow> fault + ('s list \<times> int list)" where
  "Reset_loop reset [] ts = Inr ([], ts)"
| "Reset_loop reset (s # ss) ts =
     (if length ts = 0 then Inl (Panic ''index out of range'')
      else
        (case Reset_loop reset ss (ts[0 := 0]) of
           Inl f \<Rightarrow> Inl f
         | Inr (ss', ts') \<Rightarrow> Inr (reset s # ss', ts')))"

definition Reset :: "('s \<Rightarrow> 's) \<Rightarrow> 's MassDriver \<Rightarrow> fault + 's MassDriver" where
  "Reset reset d =
     (let d1 = setState Idle (- 1) d
      in case Reset_loop reset (stages d1) (timestamps d1) of
           Inl f \<Rightarrow> Inl f
         | Inr (ss, ts) \<Rightarrow> Inr (d1\<lparr>stages := ss, timestamps := ts\<rparr>))"

text \<open>
  \<^verbatim>\<open>MassDriver.Abort\<close>: \<^verbatim>\<open>setState(Idle, -1)\<close>, then every stage is reset. The
  timestamps are not mentioned.
\<close>

definition MassDriver_Abort :: "('s \<Rightarrow> 's) \<Rightarrow> 's MassDriver \<Rightarrow> 's MassDriver" where
  "MassDriver_Abort reset d =
     (let d1 = setState Idle (- 1) d in d1\<lparr>stages := map reset (stages d1)\<rparr>)"

text \<open>
  \<^verbatim>\<open>MassDriver.Arm\<close>: busy unless idle; otherwise every stage is reset, the state becomes
  \<^verbatim>\<open>(Armed, 0)\<close> and stage 0 is armed.
\<close>

definition report_error :: "int \<Rightarrow> Error \<Rightarrow> 's MassDriver \<Rightarrow> 's MassDriver" where
  "report_error idx err d =
     (if errorCallback d then d\<lparr>calls := calls d @ [ErrorCallback idx err]\<rparr> else d)"

definition Arm ::
  "('s \<Rightarrow> 's) \<Rightarrow> ('s \<Rightarrow> fault + (Error option \<times> 's)) \<Rightarrow> 's MassDriver
     \<Rightarrow> fault + (Error option \<times> 's MassDriver)" where
  "Arm reset arm d =
     (if state d \<noteq> Idle then Inr (Some ErrDriverBusy, report_error (- 1) ErrDriverBusy d)
      else
        (let d1 = d\<lparr>stages := map reset (stages d)\<rparr>;
             d2 = setState Armed 0 d1
         in if length (stages d2) = 0 then Inl (Panic ''index out of range'')
            else
              (case arm (stages d2 ! 0) of
                 Inl f \<Rightarrow> Inl f
               | Inr (None, s') \<Rightarrow> Inr (None, d2\<lparr>stages := (stages d2)[0 := s']\<rparr>)
               | Inr (Some err, s') \<Rightarrow>
                   Inr (Some err, report_error 0 err (d2\<lparr>stages := (stages d2)[0 := s']\<rparr>)))))"

text \<open>\<^verbatim>\<open>MassDriver.GetStage(idx int)\<close>\<close>

definition GetStage :: "int \<Rightarrow> 's MassDriver \<Rightarrow> Error + 's" where
  "GetStage idx d =
     (if int (length (stages d)) \<le> idx \<or> idx < 0 then Inl ErrInvalidStage
      else Inr (stages d ! nat idx))"

text \<open>
  What the constructor establishes and every operation keeps: between one and
  \<open>maxStages\<close> stages, one timestamp slot per stage, and a stage index that fits the
  state.
\<close>

definition driver_inv :: "'s MassDriver \<Rightarrow> bool" where
  "driver_inv d \<longleftrightarrow>
     0 < length (stages d) \<and> length (stages d) \<le> maxStages \<and>
     length (timestamps d) = length (stages d) \<and>
     - 128 \<le> currentStage d \<and> currentStage d < 128 \<and>
     (state d = Armed \<longrightarrow> currentStage d = 0) \<and>
     (state d = Active \<longrightarrow> 1 \<le> currentStage d \<and> currentStage d < int (length (stages d)))"

section \<open>The two-stage driver of examples/voltmeter\<close>

text \<open>
  The example's \<^verbatim>\<open>main\<close> builds a double-tap stage on pins 14 and 18 and a simple stage
  on pins 15 and 19 (\<^verbatim>\<open>config/pins_pico.go\<close>), durations in nanoseconds, hands both to
  \<^verbatim>\<open>NewMassDriver\<close> with two non-nil callbacks and configures the driver with
  \<^verbatim>\<open>PinInput\<close> and \<^verbatim>\<open>PinFalling\<close>. The records below are the values these calls
  produce.
\<close>

definition stageA :: ShapedPulseStage where
  "stageA =
     \<lparr>trigger = 14, sense = 18,
      shape = \<lparr>durations = [10000, 700000, 2500000, 1000000], r = 0\<rparr>,
      senseStart = 0, senseEnd = 0, triggerStart = 0, triggerEnd = 0,
      sstate = Idle, t = 0, val = False\<rparr>"

definition stageB :: ShapedPulseStage where
  "stageB =
     \<lparr>trigger = 15, sense = 19,
      shape = \<lparr>durations = [2000000, 1000000], r = 0\<rparr>,
      senseStart = 0, senseEnd = 0, triggerStart = 0, triggerEnd = 0,
      sstate = Idle, t = 0, val = False\<rparr>"

definition massDriver :: "ShapedPulseStage MassDriver" where
  "massDriver =
     \<lparr>stages = [stageA, stageB], timestamps = [0, 0], currentStage = - 1, state = Idle,
      errorCallback = True, doneCallback = True, calls = []\<rparr>"

text \<open>
  Two readings of the pins: with the falling edge configured, a sense pin that reads
  high is free and one that reads low is occupied.
\<close>

definition pins_high :: "nat \<Rightarrow> bool" where
  "pins_high p = True"

definition pins_low :: "nat \<Rightarrow> bool" where
  "pins_low p = False"

text \<open>The driver after \<^verbatim>\<open>Arm()\<close> with both sense pins free.\<close>

definition massDriver_armed :: "ShapedPulseStage MassDriver" where
  "massDriver_armed =
     massDriver\<lparr>stages := [stageA\<lparr>sstate := Armed\<rparr>, stageB], currentStage := 0,
                state := Armed\<rparr>"

text \<open>
  The drivers that exist at run time: what \<^verbatim>\<open>NewMassDriver\<close> returns, and what \<^verbatim>\<open>Arm\<close>,
  a stage's completion callback, \<^verbatim>\<open>Reset\<close> and \<^verbatim>\<open>Abort\<close> make of such a driver, whatever
  the stages' own methods do.
\<close>

inductive reachable :: "'s MassDriver \<Rightarrow> bool" where
  new: "NewMassDriver errorCb doneCb sts = Inr d \<Longrightarrow> reachable d"
| armed: "reachable d \<Longrightarrow> Arm reset arm d = Inr (e, d') \<Longrightarrow> reachable d'"
| completed:
    "reachable d \<Longrightarrow> i < length (stages d) \<Longrightarrow> Configure_callback arm i when d = Inr d'
       \<Longrightarrow> reachable d'"
| reset: "reachable d \<Longrightarrow> Reset reset d = Inr d' \<Longrightarrow> reachable d'"
| aborted: "reachable d \<Longrightarrow> reachable (MassDriver_Abort reset d)"

text \<open>The interrupt handler's \<^verbatim>\<open>Abort\<close> arriving during the wait of segment \<open>k\<close> only.\<close>

definition abort_during :: "nat \<Rightarrow> nat \<Rightarrow> bool" where
  "abort_during k i \<longleftrightarrow> i = k"

text \<open>
  The interface \<^verbatim>\<open>Stage\<close> allows an \<^verbatim>\<open>Arm\<close> that returns an error; this one reports a
  sense pin error and leaves the stage alone.
\<close>

definition refusing_Arm :: "ShapedPulseStage \<Rightarrow> fault + (Error option \<times> ShapedPulseStage)" where
  "refusing_Arm s = Inr (Some ErrSensePin, s)"

section \<open>Chronograph validity\<close>

text \<open>
  Claim C6. For every tuple of the four chronograph timestamps, \<^verbatim>\<open>IsValid\<close> is true
  exactly when all four are non-zero or all four are zero, and it is false for every
  tuple in which exactly one, two or three of them are non-zero.
\<close>

theorem IsValid_all_or_none:
  "(IsValid c \<longleftrightarrow> nonzero_entries c = 4 \<or> nonzero_entries c = 0) \<and>
   (nonzero_entries c \<in> {1, 2, 3} \<longrightarrow> \<not> IsValid c)"
  by (auto simp: IsValid_def nonzero_entries_def)

theorem IsValid_all_or_none_witness:
  "nonzero_entries \<lparr>timeStartA = 5, timeStartB = 9, timeEndA = 0, timeEndB = 11\<rparr> \<in> {1, 2, 3} \<and>
   \<not> IsValid \<lparr>timeStartA = 5, timeStartB = 9, timeEndA = 0, timeEndB = 11\<rparr> \<and>
   IsValid \<lparr>timeStartA = 5, timeStartB = 9, timeEndA = 7, timeEndB = 11\<rparr> \<and>
   IsValid \<lparr>timeStartA = 0, timeStartB = 0, timeEndA = 0, timeEndB = 0\<rparr>"
  using IsValid_all_or_none [of "\<lparr>timeStartA = 5, timeStartB = 9, timeEndA = 0, timeEndB = 11\<rparr>"]
    IsValid_all_or_none [of "\<lparr>timeStartA = 5, timeStartB = 9, timeEndA = 7, timeEndB = 11\<rparr>"]
    IsValid_all_or_none [of "\<lparr>timeStartA = 0, timeStartB = 0, timeEndA = 0, timeEndB = 0\<rparr>"]
  by (simp add: nonzero_entries_def)

section \<open>Wait calibration\<close>

lemma Gcd_loop_gcd: "0 \<le> a \<Longrightarrow> 0 \<le> b \<Longrightarrow> Gcd_loop a b = gcd a b"
proof (induction a b rule: Gcd_loop.induct)
  case (1 a b)
  show ?case
  proof (cases "b = 0")
    case True
    with 1 show ?thesis by (simp add: Gcd_loop.simps)
  next
    case False
    with 1 have m: "a smod b = a mod b" by (simp add: smod_mod_positive)
    from False 1 have "0 \<le> a mod b" by simp
    with 1 False m have "Gcd_loop b (a smod b) = gcd b (a mod b)" by simp
    with False show ?thesis by (subst Gcd_loop.simps) (simp add: gcd_red_int [of a b])
  qed
qed

lemma int64_id: "- (2 ^ 63) \<le> x \<Longrightarrow> x < 2 ^ 63 \<Longrightarrow> int64 x = x"
  by (simp add: int64_def)

lemma sdiv_nonneg: "0 \<le> a \<Longrightarrow> 0 < b \<Longrightarrow> a sdiv b = a div (b::int)"
  by (simp add: signed_divide_int_def sgn_if)

lemma lcm_pos_facts:
  fixes a b :: int
  assumes "0 < a" "0 < b"
  shows "a * b div gcd a b = lcm a b" "0 < lcm a b" "lcm a b \<le> a * b"
proof -
  from assms show "a * b div gcd a b = lcm a b"
    by (simp add: lcm_altdef_int)
  from assms show "0 < lcm a b"
    by (simp add: lcm_pos_int)
  have "lcm a b dvd a * b"
    by (rule lcm_least) simp_all
  moreover from assms have "0 < a * b" by simp
  ultimately show "lcm a b \<le> a * b"
    by (rule zdvd_imp_le)
qed

lemma div64_pos:
  assumes "0 \<le> l" "l < 2 ^ 63" "0 < d"
  shows "div64 l d = Inr (l div d)"
proof -
  have "0 \<le> l div d"
    using assms by (simp add: pos_imp_zdiv_nonneg_iff)
  moreover have "l div d \<le> l"
    using zdiv_mono2 [of l 1 d] assms by simp
  ultimately have "int64 (l div d) = l div d"
    using assms by (intro int64_id) simp_all
  with assms show ?thesis
    by (simp add: div64_def sdiv_nonneg)
qed

text \<open>Without overflow in \<^verbatim>\<open>a * b\<close>, \<^verbatim>\<open>scaleConstants\<close> divides the least common multiple.\<close>

lemma scaleConstants_no_overflow:
  assumes "0 < a" "0 < b" "a * b < 2 ^ 63"
  shows "scaleConstants a b = Inr (lcm a b div a, lcm a b div b)"
proof -
  have g: "Gcd_loop a b = gcd a b" "0 < gcd a b"
    using assms by (simp_all add: Gcd_loop_gcd gcd_pos_int)
  have p: "0 \<le> a * b"
    using assms by simp
  then have ab: "int64 (a * b) = a * b"
    using assms(3) by (intro int64_id) simp_all
  note L = lcm_pos_facts [OF assms(1,2)]
  have "div64 (a * b) (gcd a b) = Inr (a * b div gcd a b)"
    using p assms(3) g(2) by (rule div64_pos)
  then have l: "lcm64 a b = Inr (lcm a b)"
    by (simp only: lcm64_def ab g(1) L(1))
  have r: "0 \<le> lcm a b" "lcm a b < 2 ^ 63"
    using L(2,3) assms(3) by simp_all
  have ka: "div64 (lcm a b) a = Inr (lcm a b div a)"
    using r assms(1) by (rule div64_pos)
  have kb: "div64 (lcm a b) b = Inr (lcm a b div b)"
    using r assms(2) by (rule div64_pos)
  show ?thesis
    by (simp add: scaleConstants_def l ka kb)
qed

text \<open>
  Where the product \<^verbatim>\<open>a * b\<close> inside \<^verbatim>\<open>lcm\<close> stays in the \<^verbatim>\<open>int64\<close> range, the call
  stores the reduced ratio: \<open>K = lcm(actual, wanted) / actual\<close>,
  \<open>M = lcm(actual, wanted) / wanted\<close> and \<open>actual * K = wanted * M\<close>.
\<close>

lemma SetWaitCalibration_in_range:
  assumes "0 < wanted" "0 < actual" "actual * wanted < 2 ^ 63"
  shows "\<exists>cal'. SetWaitCalibration wanted actual cal = Inr cal' \<and>
           WaitCalibrationK cal' = lcm actual wanted div actual \<and>
           WaitCalibrationM cal' = lcm actual wanted div wanted \<and>
           actual * WaitCalibrationK cal' = wanted * WaitCalibrationM cal' \<and>
           int64 (actual * WaitCalibrationK cal') = actual * WaitCalibrationK cal'"
proof -
  define l where "l = lcm actual wanted"
  define k where "k = l div actual"
  define m where "m = l div wanted"
  define cal' where "cal' = cal\<lparr>WaitCalibrationK := k, WaitCalibrationM := m\<rparr>"
  note L = lcm_pos_facts [OF assms(2,1)]
  have ak: "actual * k = l"
    unfolding k_def l_def by (rule dvd_mult_div_cancel) (rule dvd_lcm1)
  have wm: "wanted * m = l"
    unfolding m_def l_def by (rule dvd_mult_div_cancel) (rule dvd_lcm2)
  have il: "int64 l = l"
  proof (rule int64_id)
    from L(2) show "- (2 ^ 63) \<le> l" unfolding l_def by simp
    from L(3) assms(3) show "l < 2 ^ 63" unfolding l_def by simp
  qed
  have sc: "scaleConstants actual wanted = Inr (k, m)"
    unfolding k_def m_def l_def by (rule scaleConstants_no_overflow [OF assms(2,1,3)])
  have K: "WaitCalibrationK cal' = k" and M: "WaitCalibrationM cal' = m"
    by (simp_all add: cal'_def)
  have "SetWaitCalibration wanted actual cal = Inr cal'"
    by (simp add: SetWaitCalibration_def sc cal'_def)
  moreover have "WaitCalibrationK cal' = lcm actual wanted div actual"
    by (simp only: K k_def l_def)
  moreover have "WaitCalibrationM cal' = lcm actual wanted div wanted"
    by (simp only: M m_def l_def)
  moreover have "actual * WaitCalibrationK cal' = wanted * WaitCalibrationM cal'"
    by (simp only: K M ak wm)
  moreover have "int64 (actual * WaitCalibrationK cal') = actual * WaitCalibrationK cal'"
    by (simp only: K ak il)
  ultimately show ?thesis
    by blast
qed

text \<open>A calibration of a 2 ms wait that measured 24.894 ms.\<close>

lemma SetWaitCalibration_in_range_example:
  "(0::int) < 2000000 \<and> (0::int) < 24894000 \<and> (24894000::int) * 2000000 < 2 ^ 63 \<and>
   SetWaitCalibration 2000000 24894000 default_calibration =
     Inr \<lparr>WaitCalibrationK = 1000, WaitCalibrationM = 12447\<rparr> \<and>
   (24894000::int) * 1000 = 2000000 * 12447"
proof -
  have h: "(0::int) < 2000000" "(0::int) < 24894000" "(24894000::int) * 2000000 < 2 ^ 63"
    by simp_all
  from SetWaitCalibration_in_range [OF h, of default_calibration]
  obtain cal' where c: "SetWaitCalibration 2000000 24894000 default_calibration = Inr cal'"
    and e: "24894000 * WaitCalibrationK cal' = 2000000 * WaitCalibrationM cal'"
    by blast
  have "SetWaitCalibration 2000000 24894000 default_calibration =
      Inr \<lparr>WaitCalibrationK = 1000, WaitCalibrationM = 12447\<rparr>"
    by (simp add: SetWaitCalibration_def scaleConstants_def lcm64_def div64_def int64_def
        Gcd_loop.simps default_calibration_def)
  with c e show ?thesis by simp
qed

text \<open>
  Claim C5, at an input where the code departs from it. The claim: for all positive
  durations \<open>wanted\<close> and \<open>actual\<close>, the constants \<open>K\<close> and \<open>M\<close> that
  \<^verbatim>\<open>SetWaitCalibration(wanted, actual)\<close> stores are the reduced ratio and satisfy
  \<open>actual * K = wanted * M\<close>. With \<open>wanted\<close> = 4 s and \<open>actual\<close> = 3 s the reduced ratio
  is \<open>K = 4\<close>, \<open>M = 3\<close>, and the least common multiple, 12 s, fits \<^verbatim>\<open>int64\<close> with room
  to spare. But \<^verbatim>\<open>lcm\<close> multiplies \<^verbatim>\<open>a * b\<close> before it divides by the greatest common
  divisor; the product leaves the \<^verbatim>\<open>int64\<close> range and wraps to a negative number, the
  call stores \<open>K = -2\<close> and \<open>M = -1\<close>, and \<open>actual * K\<close> differs from \<open>wanted * M\<close>,
  with or without wrap-around.
\<close>

theorem SetWaitCalibration_overflow:
  "(0::int) < 4000000000 \<and> (0::int) < 3000000000 \<and>
   SetWaitCalibration 4000000000 3000000000 default_calibration =
     Inr \<lparr>WaitCalibrationK = - 2, WaitCalibrationM = - 1\<rparr> \<and>
   (3000000000::int) * WaitCalibrationK \<lparr>WaitCalibrationK = - 2, WaitCalibrationM = - 1\<rparr> \<noteq>
     4000000000 * WaitCalibrationM \<lparr>WaitCalibrationK = - 2, WaitCalibrationM = - 1\<rparr> \<and>
   int64 (3000000000 * WaitCalibrationK \<lparr>WaitCalibrationK = - 2, WaitCalibrationM = - 1\<rparr>) \<noteq>
     int64 (4000000000 * WaitCalibrationM \<lparr>WaitCalibrationK = - 2, WaitCalibrationM = - 1\<rparr>)"
  by (simp add: SetWaitCalibration_def scaleConstants_def lcm64_def div64_def int64_def
        Gcd_loop.simps default_calibration_def)

section \<open>Pulse train: what an abort does to a run\<close>

text \<open>
  Whatever the handler does and whenever, a run drives the pin high once for every odd
  index that is left: its own flag is 1 and nothing the handler does changes it.
\<close>

lemma Run_loop_never_early:
  "r pt \<noteq> 0 \<Longrightarrow>
   length (filter (\<lambda>c. c = High) (snd (Run_loop aborts now i ds pt p ts))) =
     length (filter (\<lambda>c. c = High) p) + (length ds + i mod 2) div 2"
proof (induction ds arbitrary: i p ts)
  case Nil
  then show ?case by simp
next
  case (Cons d ds)
  note IH = Cons.IH [OF Cons.prems, of "Suc i"]
  show ?case
  proof (cases "i mod 2 = 0")
    case True
    then have m: "Suc i mod 2 = 1" by presburger
    from True Cons.prems show ?thesis
      by (simp add: Let_def Abort_def IH m)
  next
    case False
    then have m: "Suc i mod 2 = 0" "i mod 2 = 1" by presburger+
    from False Cons.prems show ?thesis
      by (simp add: Let_def Abort_def IH m)
  qed
qed

lemma Run_never_early:
  "length (filter (\<lambda>c. c = High) (snd (Run aborts now pt p))) =
     length (filter (\<lambda>c. c = High) p) + length (durations pt) div 2"
  using Run_loop_never_early [of "pt\<lparr>r := 1\<rparr>" aborts now 0 "durations pt" p 0]
  by (simp add: Run_def)

text \<open>
  Claim C1, at the input where the code departs from it. The pulse train is the shape
  of the simple stage (2 ms quiet, 1 ms active) and the handler calls \<^verbatim>\<open>Abort\<close> while
  \<^verbatim>\<open>Run\<close> is in the quiet wait. \<^verbatim>\<open>Abort\<close> drives the pin low and stores 1, the value
  \<^verbatim>\<open>Run\<close> itself stores on entry, and on its own copy of the struct; \<^verbatim>\<open>Run\<close> tests for 0,
  does not return early and drives the pin high for the whole active segment.
\<close>

theorem Run_continues_after_Abort:
  "Run (abort_during 0) now (shape stageB) [] = (now, [Low, High, Low]) \<and>
   r (fst (Abort (shape stageB) [])) = 1"
  by (simp add: Run_def stageB_def abort_during_def Abort_def)

section \<open>Mass driver: the cross-check, the happy path and the reset\<close>

lemma setState_simps:
  "state (setState s idx d) = s"
  "currentStage (setState s idx d) = idx"
  "stages (setState s idx d) = stages d"
  "timestamps (setState s idx d) = timestamps d"
  "errorCallback (setState s idx d) = errorCallback d"
  "doneCallback (setState s idx d) = doneCallback d"
  "s \<noteq> Done \<Longrightarrow> calls (setState s idx d) = calls d"
  by (simp_all add: setState_def Let_def)

lemma int8_id: "- 128 \<le> x \<Longrightarrow> x < 128 \<Longrightarrow> int8 x = x"
  by (simp add: int8_def)

text \<open>The constructors and calls of the example produce the records defined above.\<close>

lemma example_setup:
  "NewDoubleTapStage 14 18 10000 700000 2500000 1000000 = Inr stageA"
  "NewSimpleStage 15 19 2000000 1000000 = Inr stageB"
  "NewMassDriver True True [stageA, stageB] = Inr massDriver"
  "Configure (ShapedPulseStage_Configure PinInput PinFalling) massDriver = (None, massDriver)"
  "Arm ShapedPulseStage_Reset (ShapedPulseStage_Arm pins_high ticks) massDriver =
     Inr (None, massDriver_armed)"
  by (simp_all add: NewDoubleTapStage_def NewSimpleStage_def NewShapedPulseStage_def SetShape_def
      NewPulseTrain_def stageA_def stageB_def NewMassDriver_def maxStages_def setState_def
      massDriver_def Configure_def ShapedPulseStage_Configure_def Arm_def
      ShapedPulseStage_Reset_def ShapedPulseStage_Arm_def pins_high_def massDriver_armed_def)

lemma stageTriggered_mismatch:
  "snd (getState d) \<noteq> i \<Longrightarrow> stageTriggered arm i d = Inr (setState Failed i d)"
  by (cases "getState d") (simp add: stageTriggered_def)

text \<open>
  Claim C2. If the index \<open>i\<close> reported to \<^verbatim>\<open>stageTriggered\<close> is not the driver's current
  stage index, the driver goes to \<open>Failed\<close> and no stage is armed: the stages and the
  callback log are as before, whatever \<^verbatim>\<open>Arm\<close> of the stages would do. The same holds
  for the completion callback that \<^verbatim>\<open>Configure\<close> installs for stage \<open>j\<close>, which calls
  \<^verbatim>\<open>stageTriggered(int8(j))\<close>. For a two-stage driver that has been armed the current
  index is 0, so the callback of stage 1 arriving first is such a case.
\<close>

theorem stageTriggered_wrong_index:
  "(snd (getState d) \<noteq> i \<longrightarrow>
      (\<exists>d'. stageTriggered arm i d = Inr d' \<and> state d' = Failed \<and> currentStage d' = i \<and>
            stages d' = stages d \<and> calls d' = calls d)) \<and>
   (snd (getState d) \<noteq> int8 (int j) \<and> j < length (timestamps d) \<longrightarrow>
      (\<exists>d'. Configure_callback arm j when d = Inr d' \<and> state d' = Failed \<and>
            stages d' = stages d \<and> calls d' = calls d))"
proof (intro conjI impI)
  assume "snd (getState d) \<noteq> i"
  then have "stageTriggered arm i d = Inr (setState Failed i d)"
    by (rule stageTriggered_mismatch)
  then show "\<exists>d'. stageTriggered arm i d = Inr d' \<and> state d' = Failed \<and> currentStage d' = i \<and>
            stages d' = stages d \<and> calls d' = calls d"
    by (simp add: setState_simps)
next
  assume a: "snd (getState d) \<noteq> int8 (int j) \<and> j < length (timestamps d)"
  then have "stageTriggered arm (int8 (int j)) d = Inr (setState Failed (int8 (int j)) d)"
    by (intro stageTriggered_mismatch) simp
  with a show "\<exists>d'. Configure_callback arm j when d = Inr d' \<and> state d' = Failed \<and>
            stages d' = stages d \<and> calls d' = calls d"
    by (simp add: Configure_callback_def setState_simps)
qed

text \<open>
  The two-stage driver of the example, armed: the completion callback of stage 1
  arrives before that of stage 0. The driver fails and stage 1 is still idle.
\<close>

theorem stageTriggered_wrong_index_witness:
  "snd (getState massDriver_armed) \<noteq> 1 \<and>
   snd (getState massDriver_armed) \<noteq> int8 (int 1) \<and> 1 < length (timestamps massDriver_armed) \<and>
   stageTriggered (ShapedPulseStage_Arm pins_high 0) 1 massDriver_armed =
     Inr (massDriver_armed\<lparr>currentStage := 1, state := Failed\<rparr>) \<and>
   Configure_callback (ShapedPulseStage_Arm pins_high 0) 1 5000 massDriver_armed =
     Inr (massDriver_armed\<lparr>timestamps := [0, 5000], currentStage := 1, state := Failed\<rparr>) \<and>
   map sstate (stages massDriver_armed) = [Armed, Idle]"
proof -
  have g: "getState massDriver_armed = (Armed, 0)"
    by (simp add: getState_def massDriver_armed_def massDriver_def int8_def)
  have l: "length (timestamps massDriver_armed) = 2"
    by (simp add: massDriver_armed_def massDriver_def)
  have h: "snd (getState massDriver_armed) \<noteq> 1"
    "snd (getState massDriver_armed) \<noteq> int8 (int 1) \<and> 1 < length (timestamps massDriver_armed)"
    by (simp_all add: g l int8_def)
  have f: "setState Failed 1 massDriver_armed = massDriver_armed\<lparr>currentStage := 1, state := Failed\<rparr>"
    by (simp add: setState_def)
  from stageTriggered_wrong_index [of massDriver_armed 1 "ShapedPulseStage_Arm pins_high 0" 1 5000]
    h
  obtain d' d'' where
    "stageTriggered (ShapedPulseStage_Arm pins_high 0) 1 massDriver_armed = Inr d'"
    "Configure_callback (ShapedPulseStage_Arm pins_high 0) 1 5000 massDriver_armed = Inr d''"
    by blast
  moreover have "stageTriggered (ShapedPulseStage_Arm pins_high 0) 1 massDriver_armed =
     Inr (massDriver_armed\<lparr>currentStage := 1, state := Failed\<rparr>)"
    using stageTriggered_mismatch [OF h(1)] by (simp add: f)
  moreover from this
  have "Configure_callback (ShapedPulseStage_Arm pins_high 0) 1 5000 massDriver_armed =
     Inr (massDriver_armed\<lparr>timestamps := [0, 5000], currentStage := 1, state := Failed\<rparr>)"
    by (simp add: Configure_callback_def int8_def massDriver_armed_def massDriver_def)
  moreover have "map sstate (stages massDriver_armed) = [Armed, Idle]"
    by (simp add: massDriver_armed_def massDriver_def stageA_def stageB_def)
  ultimately show ?thesis
    using h by simp
qed

text \<open>
  Claim C3, at the input where the code departs from it. The two-stage driver of the
  example is armed; the completion callback of stage 0 is called with \<open>t0\<close>, then that
  of stage 1 with \<open>t1\<close>. The driver ends in \<open>Done\<close>, but \<^verbatim>\<open>doneCallback\<close> has been called
  from inside \<^verbatim>\<open>stageTriggered\<close>, before the closure stores \<open>t1\<close>: the array it is called
  with holds \<open>t0\<close> and the old content 0 of slot 1. Only afterwards does the array
  hold both timestamps.
\<close>

theorem doneCallback_before_last_timestamp:
  "\<exists>d2 d3.
     Arm ShapedPulseStage_Reset (ShapedPulseStage_Arm pins_high ticks) massDriver =
       Inr (None, massDriver_armed) \<and>
     Configure_callback (ShapedPulseStage_Arm pins_high ticks) 0 t0 massDriver_armed = Inr d2 \<and>
     state d2 = Active \<and> currentStage d2 = 1 \<and> map sstate (stages d2) = [Armed, Armed] \<and>
     Configure_callback (ShapedPulseStage_Arm pins_high ticks) 1 t1 d2 = Inr d3 \<and>
     state d3 = Done \<and> calls d3 = [DoneCallback [t0, 0]] \<and> timestamps d3 = [t0, t1]"
proof -
  define arm where "arm = ShapedPulseStage_Arm pins_high ticks"
  define d2 where "d2 = massDriver_armed\<lparr>stages := [stageA\<lparr>sstate := Armed\<rparr>,
      stageB\<lparr>sstate := Armed\<rparr>], timestamps := [t0, 0], currentStage := 1, state := Active\<rparr>"
  define d3 where "d3 = d2\<lparr>timestamps := [t0, t1], currentStage := 2, state := Done,
      calls := [DoneCallback [t0, 0]]\<rparr>"
  have a: "Arm ShapedPulseStage_Reset arm massDriver = Inr (None, massDriver_armed)"
    unfolding arm_def by (rule example_setup(5))
  have b: "Configure_callback arm 0 t0 massDriver_armed = Inr d2"
    by (simp add: Configure_callback_def stageTriggered_def getState_def int8_def
      setState_def massDriver_armed_def massDriver_def stageA_def stageB_def
      ShapedPulseStage_Arm_def pins_high_def arm_def d2_def)
  have c: "Configure_callback arm 1 t1 d2 = Inr d3"
    by (simp add: Configure_callback_def stageTriggered_def getState_def int8_def
      setState_def massDriver_armed_def massDriver_def d2_def d3_def)
  have "state d2 = Active" "currentStage d2 = 1" "map sstate (stages d2) = [Armed, Armed]"
    "state d3 = Done" "calls d3 = [DoneCallback [t0, 0]]" "timestamps d3 = [t0, t1]"
    by (simp_all add: d2_def d3_def stageA_def stageB_def)
  with a b c have
    "Arm ShapedPulseStage_Reset arm massDriver = Inr (None, massDriver_armed) \<and>
     Configure_callback arm 0 t0 massDriver_armed = Inr d2 \<and>
     state d2 = Active \<and> currentStage d2 = 1 \<and> map sstate (stages d2) = [Armed, Armed] \<and>
     Configure_callback arm 1 t1 d2 = Inr d3 \<and>
     state d3 = Done \<and> calls d3 = [DoneCallback [t0, 0]] \<and> timestamps d3 = [t0, t1]"
    by simp
  then show ?thesis
    unfolding arm_def by (intro exI)
qed

lemma Reset_loop_eq:
  "ss \<noteq> [] \<Longrightarrow> ts \<noteq> [] \<Longrightarrow> Reset_loop reset ss ts = Inr (map reset ss, ts[0 := 0])"
proof (induction ss arbitrary: ts)
  case Nil
  then show ?case by simp
next
  case (Cons s ss)
  show ?case
  proof (cases ss)
    case Nil
    with Cons.prems show ?thesis by simp
  next
    case (Cons s' ss')
    from Cons.prems have "ts[0 := 0] \<noteq> []" by simp
    with Cons.IH [of "ts[0 := 0]"] Cons
    have "Reset_loop reset ss (ts[0 := 0]) = Inr (map reset ss, ts[0 := 0])"
      by simp
    with Cons.prems show ?thesis by simp
  qed
qed

lemma Reset_eq:
  assumes "stages d \<noteq> []" "timestamps d \<noteq> []"
  shows "Reset reset d =
    Inr ((setState Idle (- 1) d)\<lparr>stages := map reset (stages d),
           timestamps := (timestamps d)[0 := 0]\<rparr>)"
  using Reset_loop_eq [OF assms, of reset]
  by (simp add: Reset_def Let_def setState_simps)

text \<open>
  Claim C9. For a driver with \<open>n \<ge> 2\<close> stages and one timestamp slot per stage,
  \<^verbatim>\<open>Reset\<close> returns with state \<open>Idle\<close>, current index -1 and every stage reset; slot 0 of
  the timestamps is zero and every slot from 1 to \<open>n - 1\<close> holds what it held before.
  \<^verbatim>\<open>Abort\<close> does the same to state, index and stages and leaves all timestamps as they
  were.
\<close>

theorem Reset_first_timestamp_only:
  assumes "2 \<le> length (stages d)" "length (timestamps d) = length (stages d)"
  shows "\<exists>d'. Reset reset d = Inr d' \<and>
           state d' = Idle \<and> currentStage d' = - 1 \<and>
           stages d' = map reset (stages d) \<and>
           length (timestamps d') = length (timestamps d) \<and>
           timestamps d' ! 0 = 0 \<and>
           (\<forall>i. 1 \<le> i \<and> i < length (stages d) \<longrightarrow> timestamps d' ! i = timestamps d ! i) \<and>
           state (MassDriver_Abort reset d) = Idle \<and>
           currentStage (MassDriver_Abort reset d) = - 1 \<and>
           stages (MassDriver_Abort reset d) = map reset (stages d) \<and>
           timestamps (MassDriver_Abort reset d) = timestamps d"
proof -
  from assms have ne: "stages d \<noteq> []" "timestamps d \<noteq> []" by auto
  define d' where "d' = (setState Idle (- 1) d)\<lparr>stages := map reset (stages d),
      timestamps := (timestamps d)[0 := 0]\<rparr>"
  have "Reset reset d = Inr d'"
    unfolding d'_def by (rule Reset_eq [OF ne])
  moreover have "state d' = Idle" "currentStage d' = - 1" "stages d' = map reset (stages d)"
    "length (timestamps d') = length (timestamps d)"
    by (simp_all add: d'_def setState_simps)
  moreover have "timestamps d' ! 0 = 0"
    using ne by (simp add: d'_def)
  moreover have "\<forall>i. 1 \<le> i \<and> i < length (stages d) \<longrightarrow> timestamps d' ! i = timestamps d ! i"
    by (simp add: d'_def)
  moreover have "state (MassDriver_Abort reset d) = Idle"
    "currentStage (MassDriver_Abort reset d) = - 1"
    "stages (MassDriver_Abort reset d) = map reset (stages d)"
    "timestamps (MassDriver_Abort reset d) = timestamps d"
    by (simp_all add: MassDriver_Abort_def Let_def setState_simps)
  ultimately show ?thesis by blast
qed

text \<open>
  The example's driver after a completed shot with timestamps 1000 and 5000: after
  \<^verbatim>\<open>Reset\<close> the second one is still there, after \<^verbatim>\<open>Abort\<close> both are.
\<close>

theorem Reset_first_timestamp_only_witness:
  "2 \<le> length (stages (massDriver\<lparr>timestamps := [1000, 5000], currentStage := 2, state := Done\<rparr>)) \<and>
   Reset ShapedPulseStage_Reset (massDriver\<lparr>timestamps := [1000, 5000], currentStage := 2, state := Done\<rparr>)
     = Inr (massDriver\<lparr>timestamps := [0, 5000]\<rparr>) \<and>
   MassDriver_Abort ShapedPulseStage_Reset
       (massDriver\<lparr>timestamps := [1000, 5000], currentStage := 2, state := Done\<rparr>)
     = massDriver\<lparr>timestamps := [1000, 5000]\<rparr>"
proof -
  define d where "d = massDriver\<lparr>timestamps := [1000, 5000], currentStage := 2, state := Done\<rparr>"
  have h: "2 \<le> length (stages d)" "length (timestamps d) = length (stages d)"
    by (simp_all add: d_def massDriver_def)
  from Reset_first_timestamp_only [OF h, of ShapedPulseStage_Reset]
  obtain d' where "Reset ShapedPulseStage_Reset d = Inr d'" by blast
  moreover have "Reset ShapedPulseStage_Reset d = Inr (massDriver\<lparr>timestamps := [0, 5000]\<rparr>)"
    by (simp add: d_def massDriver_def Reset_def setState_def ShapedPulseStage_Reset_def
        stageA_def stageB_def)
  moreover have "MassDriver_Abort ShapedPulseStage_Reset d = massDriver\<lparr>timestamps := [1000, 5000]\<rparr>"
    by (simp add: d_def massDriver_def MassDriver_Abort_def setState_def ShapedPulseStage_Reset_def
        stageA_def stageB_def)
  ultimately show ?thesis
    using h(1) unfolding d_def by simp
qed

section \<open>Stage arming and its failure branches\<close>

text \<open>The three outcomes of \<^verbatim>\<open>ShapedPulseStage.Arm\<close>.\<close>

lemma Arm_shaped_cases:
  "ShapedPulseStage_Arm pins ticks s =
    (if pins (sense s) = val s \<and> 1 \<le> t s then Inl Blocked
     else if pins (sense s) = val s
       then Inr (None, s\<lparr>sstate := Armed, senseStart := ticks, t := t s + 1\<rparr>)
     else Inr (None, s\<lparr>sstate := Armed\<rparr>))"
  by (auto simp: ShapedPulseStage_Arm_def Let_def)

lemma Arm_shaped_no_error: "ShapedPulseStage_Arm pins ticks s \<noteq> Inr (Some e, s')"
  by (simp add: Arm_shaped_cases)

lemma Arm_shaped_no_panic: "ShapedPulseStage_Arm pins ticks s \<noteq> Inl (Panic m)"
  by (simp add: Arm_shaped_cases)

text \<open>Where \<^verbatim>\<open>stageTriggered\<close> can end in \<open>Failed\<close> when the stage's \<^verbatim>\<open>Arm\<close> returns no error.\<close>

lemma stageTriggered_Failed_cases:
  assumes "\<And>s e s'. arm s \<noteq> Inr (Some e, s')"
    and "stageTriggered arm i d = Inr d'" and "state d' = Failed"
  shows "snd (getState d) \<noteq> i \<or> (i = 0 \<and> state d \<noteq> Armed) \<or> (i \<noteq> 0 \<and> state d \<noteq> Active)"
proof (rule ccontr)
  assume n: "\<not> ?thesis"
  then have g: "getState d = (state d, i)"
    by (simp add: getState_def)
  show False
  proof (cases "int8 (i + 1) < int8 (int (length (stages d)))")
    case True
    show ?thesis
    proof (cases "arm (stages d ! nat (int8 (i + 1)))")
      case (Inl f)
      with n g True assms(2) show ?thesis
        by (auto simp: stageTriggered_def Let_def split: if_splits)
    next
      case (Inr p)
      obtain err s' where p: "p = (err, s')" by (cases p)
      with Inr assms(1) have "err = None" by (cases err) auto
      with n g True assms(2,3) Inr p show ?thesis
        by (auto simp: stageTriggered_def Let_def setState_simps split: if_splits)
    qed
  next
    case False
    with n g assms(2,3) show ?thesis
      by (auto simp: stageTriggered_def Let_def setState_simps split: if_splits)
  qed
qed

lemma Arm_error_cases:
  assumes "\<And>s e s'. arm s \<noteq> Inr (Some e, s')"
    and "Arm reset arm d = Inr (Some e, d')"
  shows "e = ErrDriverBusy \<and> state d \<noteq> Idle \<and> d' = report_error (- 1) ErrDriverBusy d"
proof (cases "state d = Idle")
  case False
  with assms(2) show ?thesis by (simp add: Arm_def)
next
  case True
  define d2 where "d2 = setState Armed 0 (d\<lparr>stages := map reset (stages d)\<rparr>)"
  show ?thesis
  proof (cases "arm (stages d2 ! 0)")
    case (Inl f)
    with True assms(2) show ?thesis
      by (auto simp: Arm_def Let_def d2_def split: if_splits)
  next
    case (Inr p)
    obtain err s' where p: "p = (err, s')" by (cases p)
    with Inr assms(1) have "err = None" by (cases err) auto
    with True assms(2) Inr p show ?thesis
      by (auto simp: Arm_def Let_def d2_def split: if_splits)
  qed
qed

text \<open>
  \<^verbatim>\<open>MassDriver.Arm\<close> resets every stage before it arms stage 0, which empties that
  stage's channel: the send in \<^verbatim>\<open>Arm\<close> of the stage finds the slot free.
\<close>

lemma Arm_idle_shaped:
  assumes "state d = Idle" "stages d \<noteq> []" "t (stages d ! 0) \<le> 1"
  shows "\<exists>d'. Arm ShapedPulseStage_Reset (ShapedPulseStage_Arm pins ticks) d = Inr (None, d') \<and>
           state d' = Armed \<and> currentStage d' = 0"
proof -
  define s0 where "s0 = ShapedPulseStage_Reset (stages d ! 0)"
  from assms(3) have t0: "t s0 = 0"
    by (simp add: s0_def ShapedPulseStage_Reset_def)
  from assms(2) have n: "map ShapedPulseStage_Reset (stages d) ! 0 = s0"
    by (simp add: s0_def nth_map)
  from t0 obtain s1 where a: "ShapedPulseStage_Arm pins ticks s0 = Inr (None, s1)"
    by (cases "pins (sense s0) = val s0") (auto simp: Arm_shaped_cases)
  with assms(1,2) n show ?thesis
    by (simp add: Arm_def Let_def setState_simps)
qed

text \<open>
  Claim C10, as the code has it. \<^verbatim>\<open>ShapedPulseStage.Arm\<close> never returns an error and
  never panics. It returns \<^verbatim>\<open>nil\<close>, with the stage armed, unless the sense pin reads the
  occupied level while a signal is already waiting in the channel; then the send, and
  with it the call, blocks. In a driver whose stages are \<^verbatim>\<open>ShapedPulseStage\<close>s the
  arm-failure branches are not taken: \<^verbatim>\<open>stageTriggered\<close> ends in \<open>Failed\<close> only through
  one of its cross-checks, the only error the driver's \<^verbatim>\<open>Arm\<close> returns is
  \<^verbatim>\<open>ErrDriverBusy\<close>, and on an idle driver it returns \<^verbatim>\<open>nil\<close>.
\<close>

theorem ShapedPulseStage_Arm_no_error:
  "ShapedPulseStage_Arm pins ticks s \<noteq> Inr (Some e, s') \<and>
   ShapedPulseStage_Arm pins ticks s \<noteq> Inl (Panic m) \<and>
   (ShapedPulseStage_Arm pins ticks s = Inl Blocked \<longleftrightarrow> pins (sense s) = val s \<and> 1 \<le> t s) \<and>
   (\<not> (pins (sense s) = val s \<and> 1 \<le> t s) \<longrightarrow>
      (\<exists>s1. ShapedPulseStage_Arm pins ticks s = Inr (None, s1) \<and> sstate s1 = Armed)) \<and>
   (stageTriggered (ShapedPulseStage_Arm pins ticks) i d = Inr d' \<and> state d' = Failed \<longrightarrow>
      snd (getState d) \<noteq> i \<or> (i = 0 \<and> state d \<noteq> Armed) \<or> (i \<noteq> 0 \<and> state d \<noteq> Active)) \<and>
   (Arm ShapedPulseStage_Reset (ShapedPulseStage_Arm pins ticks) d = Inr (Some e, d'') \<longrightarrow>
      e = ErrDriverBusy \<and> state d \<noteq> Idle \<and> d'' = report_error (- 1) ErrDriverBusy d) \<and>
   (state d = Idle \<and> stages d \<noteq> [] \<and> t (stages d ! 0) \<le> 1 \<longrightarrow>
      (\<exists>d1. Arm ShapedPulseStage_Reset (ShapedPulseStage_Arm pins ticks) d = Inr (None, d1) \<and>
            state d1 = Armed \<and> currentStage d1 = 0))"
proof (intro conjI)
  show "ShapedPulseStage_Arm pins ticks s \<noteq> Inr (Some e, s')"
    by (rule Arm_shaped_no_error)
  show "ShapedPulseStage_Arm pins ticks s \<noteq> Inl (Panic m)"
    by (rule Arm_shaped_no_panic)
  show "ShapedPulseStage_Arm pins ticks s = Inl Blocked \<longleftrightarrow> pins (sense s) = val s \<and> 1 \<le> t s"
    by (simp add: Arm_shaped_cases)
  show "\<not> (pins (sense s) = val s \<and> 1 \<le> t s) \<longrightarrow>
      (\<exists>s1. ShapedPulseStage_Arm pins ticks s = Inr (None, s1) \<and> sstate s1 = Armed)"
    by (simp add: Arm_shaped_cases)
  show "stageTriggered (ShapedPulseStage_Arm pins ticks) i d = Inr d' \<and> state d' = Failed \<longrightarrow>
      snd (getState d) \<noteq> i \<or> (i = 0 \<and> state d \<noteq> Armed) \<or> (i \<noteq> 0 \<and> state d \<noteq> Active)"
  proof
    assume "stageTriggered (ShapedPulseStage_Arm pins ticks) i d = Inr d' \<and> state d' = Failed"
    then show "snd (getState d) \<noteq> i \<or> (i = 0 \<and> state d \<noteq> Armed) \<or> (i \<noteq> 0 \<and> state d \<noteq> Active)"
      by (intro stageTriggered_Failed_cases [of "ShapedPulseStage_Arm pins ticks" i d d'])
        (simp_all add: Arm_shaped_no_error)
  qed
  show "Arm ShapedPulseStage_Reset (ShapedPulseStage_Arm pins ticks) d = Inr (Some e, d'') \<longrightarrow>
      e = ErrDriverBusy \<and> state d \<noteq> Idle \<and> d'' = report_error (- 1) ErrDriverBusy d"
  proof
    assume "Arm ShapedPulseStage_Reset (ShapedPulseStage_Arm pins ticks) d = Inr (Some e, d'')"
    then show "e = ErrDriverBusy \<and> state d \<noteq> Idle \<and> d'' = report_error (- 1) ErrDriverBusy d"
      by (intro Arm_error_cases [of "ShapedPulseStage_Arm pins ticks" ShapedPulseStage_Reset d e d''])
        (simp_all add: Arm_shaped_no_error)
  qed
  show "state d = Idle \<and> stages d \<noteq> [] \<and> t (stages d ! 0) \<le> 1 \<longrightarrow>
      (\<exists>d1. Arm ShapedPulseStage_Reset (ShapedPulseStage_Arm pins ticks) d = Inr (None, d1) \<and>
            state d1 = Armed \<and> currentStage d1 = 0)"
  proof
    assume "state d = Idle \<and> stages d \<noteq> [] \<and> t (stages d ! 0) \<le> 1"
    then show "\<exists>d1. Arm ShapedPulseStage_Reset (ShapedPulseStage_Arm pins ticks) d = Inr (None, d1) \<and>
            state d1 = Armed \<and> currentStage d1 = 0"
      by (intro Arm_idle_shaped) simp_all
  qed
qed

text \<open>
  A stage on which \<^verbatim>\<open>Arm\<close> is called twice while its sense pin reads low (occupied,
  for the polarity the constructor leaves) and no worker has taken the first signal:
  the first call returns \<^verbatim>\<open>nil\<close> and fills the channel, the second does not return.
\<close>

theorem ShapedPulseStage_Arm_blocks:
  "ShapedPulseStage_Arm pins_low 1 stageB = Inr (None, stageB\<lparr>senseStart := 1, sstate := Armed, t := 1\<rparr>) \<and>
   ShapedPulseStage_Arm pins_low 1 (stageB\<lparr>senseStart := 1, sstate := Armed, t := 1\<rparr>) = Inl Blocked"
  by (simp add: ShapedPulseStage_Arm_def stageB_def pins_low_def)

text \<open>The stages and the driver of the example, with both sense pins free.\<close>

theorem ShapedPulseStage_Arm_no_error_witness:
  "\<not> (pins_high (sense stageA) = val stageA \<and> 1 \<le> t stageA) \<and>
   ShapedPulseStage_Arm pins_high 1 stageA = Inr (None, stageA\<lparr>sstate := Armed\<rparr>) \<and>
   stageTriggered (ShapedPulseStage_Arm pins_high 1) 1 massDriver_armed =
     Inr (massDriver_armed\<lparr>currentStage := 1, state := Failed\<rparr>) \<and>
   state (massDriver_armed\<lparr>currentStage := 1, state := Failed\<rparr>) = Failed \<and>
   snd (getState massDriver_armed) \<noteq> 1 \<and>
   Arm ShapedPulseStage_Reset (ShapedPulseStage_Arm pins_high 1) massDriver_armed =
     Inr (Some ErrDriverBusy, report_error (- 1) ErrDriverBusy massDriver_armed) \<and>
   state massDriver_armed \<noteq> Idle \<and>
   state massDriver = Idle \<and> stages massDriver \<noteq> [] \<and> t (stages massDriver ! 0) \<le> 1 \<and>
   Arm ShapedPulseStage_Reset (ShapedPulseStage_Arm pins_high 1) massDriver =
     Inr (None, massDriver_armed)"
proof -
  have a: "\<not> (pins_high (sense stageA) = val stageA \<and> 1 \<le> t stageA)"
    by (simp add: pins_high_def stageA_def)
  have b: "ShapedPulseStage_Arm pins_high 1 stageA = Inr (None, stageA\<lparr>sstate := Armed\<rparr>)"
    by (simp add: ShapedPulseStage_Arm_def pins_high_def stageA_def)
  have g: "snd (getState massDriver_armed) \<noteq> 1"
    by (simp add: getState_def massDriver_armed_def massDriver_def int8_def)
  have c: "stageTriggered (ShapedPulseStage_Arm pins_high 1) 1 massDriver_armed =
     Inr (massDriver_armed\<lparr>currentStage := 1, state := Failed\<rparr>)"
    using stageTriggered_mismatch [OF g] by (simp add: setState_def)
  have d: "Arm ShapedPulseStage_Reset (ShapedPulseStage_Arm pins_high 1) massDriver_armed =
     Inr (Some ErrDriverBusy, report_error (- 1) ErrDriverBusy massDriver_armed)"
    by (simp add: Arm_def massDriver_armed_def)
  have e: "state massDriver = Idle \<and> stages massDriver \<noteq> [] \<and> t (stages massDriver ! 0) \<le> 1"
    by (simp add: massDriver_def stageA_def)
  note T1 = ShapedPulseStage_Arm_no_error [where pins = pins_high and ticks = 1 and s = stageA
      and i = 1 and d = massDriver_armed
      and d' = "massDriver_armed\<lparr>currentStage := 1, state := Failed\<rparr>"
      and e = ErrDriverBusy and d'' = "report_error (- 1) ErrDriverBusy massDriver_armed"]
  note T2 = ShapedPulseStage_Arm_no_error [where pins = pins_high and ticks = 1 and s = stageA
      and d = massDriver]
  from T1 T2 a b c d g e example_setup(5) [of 1] show ?thesis
    by (simp add: massDriver_armed_def)
qed

section \<open>Panics\<close>

text \<open>The invariant of the driver: established by the constructor, kept by every operation.\<close>

lemma NewMassDriver_inv:
  assumes "NewMassDriver ecb dcb sts = Inr d"
  shows "driver_inv d \<and> state d = Idle \<and> currentStage d = - 1 \<and> stages d = sts \<and> calls d = []"
  using assms
  by (auto simp: NewMassDriver_def driver_inv_def setState_def Let_def split: if_splits)

lemma driver_inv_setState_Failed:
  "driver_inv d \<Longrightarrow> - 128 \<le> i \<Longrightarrow> i < 128 \<Longrightarrow> driver_inv (setState Failed i d)"
  by (simp add: driver_inv_def setState_simps)

lemma driver_inv_getState:
  "driver_inv d \<Longrightarrow> getState d = (state d, currentStage d)"
  by (simp add: getState_def driver_inv_def int8_id)

text \<open>Past the three cross-checks the next index is a small positive number.\<close>

lemma next_stage_bounds:
  assumes "driver_inv d" "currentStage d = i" "i = 0 \<and> state d = Armed \<or> i \<noteq> 0 \<and> state d = Active"
  shows "int8 (i + 1) = i + 1" "1 \<le> i + 1" "i + 1 \<le> int (length (stages d))"
    "int8 (int (length (stages d))) = int (length (stages d))"
proof -
  from assms(1) have l: "1 \<le> int (length (stages d))" "int (length (stages d)) \<le> 8"
    by (cases "stages d"; simp add: driver_inv_def maxStages_def)+
  from assms have i: "0 \<le> i" "i < int (length (stages d))"
    using l by (auto simp: driver_inv_def)
  from i l show "int8 (i + 1) = i + 1" by (intro int8_id) simp_all
  from i show "1 \<le> i + 1" by simp
  from i show "i + 1 \<le> int (length (stages d))" by simp
  from l show "int8 (int (length (stages d))) = int (length (stages d))"
    by (intro int8_id) simp_all
qed

lemma stageTriggered_inv_cases:
  assumes inv: "driver_inv d" and i: "- 128 \<le> i" "i < 128"
  shows "stageTriggered arm i d = Inr (setState Failed i d) \<or>
         (i + 1 < int (length (stages d)) \<and>
            stageTriggered arm i d =
              (case arm (stages d ! nat (i + 1)) of
                 Inl f \<Rightarrow> Inl f
               | Inr (err, s') \<Rightarrow>
                   Inr (setState (if err \<noteq> None then Failed else Active) (i + 1)
                          (d\<lparr>stages := (stages d)[nat (i + 1) := s']\<rparr>)))) \<or>
         (i + 1 = int (length (stages d)) \<and> stageTriggered arm i d = Inr (setState Done (i + 1) d))"
proof (cases "currentStage d = i \<and> (i = 0 \<and> state d = Armed \<or> i \<noteq> 0 \<and> state d = Active)")
  case False
  then have "stageTriggered arm i d = Inr (setState Failed i d)"
    by (auto simp: stageTriggered_def driver_inv_getState [OF inv])
  then show ?thesis by simp
next
  case True
  then have c: "currentStage d = i" and s: "i = 0 \<and> state d = Armed \<or> i \<noteq> 0 \<and> state d = Active"
    by simp_all
  note b = next_stage_bounds [OF inv c s]
  show ?thesis
  proof (cases "i + 1 < int (length (stages d))")
    case True
    with c s b have "stageTriggered arm i d =
              (case arm (stages d ! nat (i + 1)) of
                 Inl f \<Rightarrow> Inl f
               | Inr (err, s') \<Rightarrow>
                   Inr (setState (if err \<noteq> None then Failed else Active) (i + 1)
                          (d\<lparr>stages := (stages d)[nat (i + 1) := s']\<rparr>)))"
      by (auto simp: stageTriggered_def driver_inv_getState [OF inv] Let_def
          split: sum.splits prod.splits)
    with True show ?thesis by simp
  next
    case False
    with b have e: "i + 1 = int (length (stages d))" by simp
    with c s b have "stageTriggered arm i d = Inr (setState Done (i + 1) d)"
      by (auto simp: stageTriggered_def driver_inv_getState [OF inv] Let_def)
    with e show ?thesis by simp
  qed
qed

lemma stageTriggered_no_panic:
  assumes "driver_inv d" "- 128 \<le> i" "i < 128" "\<And>s. arm s \<noteq> Inl (Panic m)"
  shows "stageTriggered arm i d \<noteq> Inl (Panic m)"
  using stageTriggered_inv_cases [OF assms(1-3), of arm] assms(4)
  by (auto split: sum.splits prod.splits)

lemma stageTriggered_inv:
  assumes inv: "driver_inv d" and i: "- 128 \<le> i" "i < 128"
    and r: "stageTriggered arm i d = Inr d'"
  shows "driver_inv d'"
proof -
  from inv have l: "int (length (stages d)) \<le> 8"
    by (simp add: driver_inv_def maxStages_def)
  from stageTriggered_inv_cases [OF inv i, of arm] show ?thesis
  proof (elim disjE conjE)
    assume "stageTriggered arm i d = Inr (setState Failed i d)"
    with r driver_inv_setState_Failed [OF inv i] show ?thesis by simp
  next
    assume b: "i + 1 < int (length (stages d))"
      and e: "stageTriggered arm i d =
        (case arm (stages d ! nat (i + 1)) of
           Inl f \<Rightarrow> Inl f
         | Inr (err, s') \<Rightarrow>
             Inr (setState (if err \<noteq> None then Failed else Active) (i + 1)
                    (d\<lparr>stages := (stages d)[nat (i + 1) := s']\<rparr>)))"
    from e r obtain st s' where
      d': "d' = setState st (i + 1) (d\<lparr>stages := (stages d)[nat (i + 1) := s']\<rparr>)"
      and st: "st = Failed \<or> st = Active"
      by (auto split: sum.splits prod.splits if_splits)
    show ?thesis
    proof (cases "0 \<le> i")
      case True
      with inv b l st show ?thesis
        unfolding d' by (auto simp: driver_inv_def setState_simps)
    next
      case False
      with inv have "stageTriggered arm i d = Inr (setState Failed i d)"
        by (auto simp: stageTriggered_def driver_inv_getState [OF inv] driver_inv_def)
      with r driver_inv_setState_Failed [OF inv i] show ?thesis by simp
    qed
  next
    assume b: "i + 1 = int (length (stages d))"
      and e: "stageTriggered arm i d = Inr (setState Done (i + 1) d)"
    with r have "d' = setState Done (i + 1) d" by simp
    with inv b l show ?thesis
      by (auto simp: driver_inv_def setState_def Let_def)
  qed
qed

lemma Configure_callback_no_panic:
  assumes "driver_inv d" "i < length (stages d)" "\<And>s. arm s \<noteq> Inl (Panic m)"
  shows "Configure_callback arm i when d \<noteq> Inl (Panic m)"
proof -
  from assms(1,2) have i: "int8 (int i) = int i" "- 128 \<le> int i" "int i < 128"
    by (auto simp: driver_inv_def maxStages_def int8_id)
  show ?thesis
  proof (cases "stageTriggered arm (int i) d")
    case (Inl f)
    with stageTriggered_no_panic [OF assms(1) i(2,3), of arm m] assms(3) show ?thesis
      by (auto simp: Configure_callback_def i(1))
  next
    case (Inr d1)
    from stageTriggered_inv [OF assms(1) i(2,3) Inr] have inv1: "driver_inv d1" .
    from stageTriggered_inv_cases [OF assms(1) i(2,3), of arm] Inr
    have "length (stages d1) = length (stages d)"
      by (auto simp: setState_simps split: sum.splits prod.splits)
    with inv1 assms(2) have "i < length (timestamps d1)"
      by (simp add: driver_inv_def)
    with Inr show ?thesis
      by (simp add: Configure_callback_def i(1))
  qed
qed

lemma Configure_callback_inv:
  assumes "driver_inv d" "i < length (stages d)" "Configure_callback arm i when d = Inr d'"
  shows "driver_inv d'"
proof -
  from assms(1,2) have i: "int8 (int i) = int i" "- 128 \<le> int i" "int i < 128"
    by (auto simp: driver_inv_def maxStages_def int8_id)
  from assms(3) obtain d1 where s: "stageTriggered arm (int i) d = Inr d1"
    and d': "d' = d1\<lparr>timestamps := (timestamps d1)[i := when]\<rparr>"
    by (auto simp: Configure_callback_def i(1) split: sum.splits if_splits)
  from stageTriggered_inv [OF assms(1) i(2,3) s] show ?thesis
    by (simp add: d' driver_inv_def)
qed

lemma Arm_no_panic:
  assumes "driver_inv d" "\<And>s. arm s \<noteq> Inl (Panic m)"
  shows "Arm reset arm d \<noteq> Inl (Panic m)"
  using assms
  by (auto simp: Arm_def Let_def driver_inv_def setState_simps split: sum.splits prod.splits option.splits)

lemma Arm_inv:
  assumes "driver_inv d" "Arm reset arm d = Inr (e, d')"
  shows "driver_inv d'"
  using assms
  by (auto simp: Arm_def Let_def driver_inv_def setState_simps report_error_def
      split: sum.splits prod.splits option.splits if_splits)

lemma Reset_total:
  assumes "driver_inv d"
  shows "Reset reset d =
    Inr ((setState Idle (- 1) d)\<lparr>stages := map reset (stages d), timestamps := (timestamps d)[0 := 0]\<rparr>)"
proof -
  from assms have "stages d \<noteq> []" "timestamps d \<noteq> []"
    by (auto simp: driver_inv_def)
  from Reset_loop_eq [OF this, of reset] show ?thesis
    by (simp add: Reset_def Let_def setState_simps)
qed

lemma Reset_inv:
  assumes "driver_inv d" "Reset reset d = Inr d'"
  shows "driver_inv d'"
  using assms(2) assms(1) unfolding Reset_total [OF assms(1)]
  by (auto simp: driver_inv_def setState_simps)

lemma Abort_inv:
  assumes "driver_inv d"
  shows "driver_inv (MassDriver_Abort reset d)"
  using assms by (auto simp: driver_inv_def MassDriver_Abort_def Let_def setState_simps)

lemma reachable_inv: "reachable d \<Longrightarrow> driver_inv d"
proof (induction rule: reachable.induct)
  case (new errorCb doneCb sts d)
  then show ?case by (simp add: NewMassDriver_inv)
next
  case (armed d reset arm e d')
  then show ?case by (blast intro: Arm_inv)
next
  case (completed d i arm "when" d')
  then show ?case by (blast intro: Configure_callback_inv)
next
  case (reset d reset d')
  then show ?case by (blast intro: Reset_inv)
next
  case (aborted d reset)
  then show ?case by (simp add: Abort_inv)
qed

lemma NewMassDriver_eq:
  "NewMassDriver ecb dcb sts =
      (if 8 < length sts then Inl (Panic ''Too many stages specified'')
       else if sts = [] then Inl (Panic ''Too few stages specified'')
       else Inr \<lparr>stages = sts, timestamps = replicate (length sts) 0, currentStage = - 1,
                 state = Idle, errorCallback = ecb, doneCallback = dcb, calls = []\<rparr>)"
  by (simp add: NewMassDriver_def maxStages_def setState_def)

lemma NewShapedPulseStage_eq:
  "NewShapedPulseStage trig sens sh =
      (if length sh < 2 \<or> odd (length sh) then Inl (Panic ''invalid pulse train'')
       else Inr \<lparr>trigger = trig, sense = sens, shape = \<lparr>durations = sh, r = 0\<rparr>,
                 senseStart = 0, senseEnd = 0, triggerStart = 0, triggerEnd = 0,
                 sstate = Idle, t = 0, val = False\<rparr>)"
  by (simp add: NewShapedPulseStage_def SetShape_def NewPulseTrain_def odd_iff_mod_2_eq_one)

lemma Arm_stage_error:
  assumes "state d = Idle" "stages d \<noteq> []" "arm (reset (stages d ! 0)) = Inr (Some e, s')"
  shows "Arm reset arm d =
    Inr (Some e, report_error 0 e
      ((setState Armed 0 (d\<lparr>stages := map reset (stages d)\<rparr>))\<lparr>stages := (map reset (stages d))[0 := s']\<rparr>))"
  using assms by (simp add: Arm_def Let_def setState_simps nth_map)

text \<open>
  Claim C4, as the code has it. The two constructors panic: \<^verbatim>\<open>NewMassDriver\<close> when it
  is given no stage or more than eight, \<^verbatim>\<open>NewShapedPulseStage\<close> when \<^verbatim>\<open>SetShape\<close> rejects
  the shape (fewer than two durations, or an odd number); with valid arguments both
  return the object. Every other error condition comes back as a value: the invalid
  shape from \<^verbatim>\<open>SetShape\<close>, the invalid pin mode from \<^verbatim>\<open>Configure\<close>, the invalid index
  from \<^verbatim>\<open>GetStage\<close>, the busy driver from \<^verbatim>\<open>Arm\<close>, and a stage's arm error from \<^verbatim>\<open>Arm\<close>,
  which also reports it through the error callback. On a driver that the constructor
  returned, or that the driver's operations made of one, \<^verbatim>\<open>Arm\<close>, \<^verbatim>\<open>Reset\<close> and the
  stages' completion callbacks do not panic unless a stage's own \<^verbatim>\<open>Arm\<close> does, and
  \<^verbatim>\<open>ShapedPulseStage.Arm\<close> does not.
\<close>

theorem panics_only_from_constructors:
  "NewMassDriver ecb dcb sts =
      (if 8 < length sts then Inl (Panic ''Too many stages specified'')
       else if sts = [] then Inl (Panic ''Too few stages specified'')
       else Inr \<lparr>stages = sts, timestamps = replicate (length sts) 0, currentStage = - 1,
                 state = Idle, errorCallback = ecb, doneCallback = dcb, calls = []\<rparr>) \<and>
   NewShapedPulseStage trig sens sh =
      (if length sh < 2 \<or> odd (length sh) then Inl (Panic ''invalid pulse train'')
       else Inr \<lparr>trigger = trig, sense = sens, shape = \<lparr>durations = sh, r = 0\<rparr>,
                 senseStart = 0, senseEnd = 0, triggerStart = 0, triggerEnd = 0,
                 sstate = Idle, t = 0, val = False\<rparr>) \<and>
   (length sh < 2 \<or> odd (length sh) \<longrightarrow> SetShape sh s = (Some ErrInvalidPulseTrain, s)) \<and>
   (mode \<noteq> PinInput \<and> mode \<noteq> PinInputPulldown \<and> mode \<noteq> PinInputPullup \<longrightarrow>
      ShapedPulseStage_Configure mode pc s = (Some ErrInvalidPinMode, s)) \<and>
   (idx < 0 \<or> int (length (stages d)) \<le> idx \<longrightarrow> GetStage idx d = Inl ErrInvalidStage) \<and>
   (state d \<noteq> Idle \<longrightarrow>
      Arm reset arm d = Inr (Some ErrDriverBusy, report_error (- 1) ErrDriverBusy d)) \<and>
   (state d = Idle \<and> stages d \<noteq> [] \<and> arm (reset (stages d ! 0)) = Inr (Some e, s') \<longrightarrow>
      (\<exists>d'. Arm reset arm d = Inr (Some e, d') \<and>
            (errorCallback d \<longrightarrow> calls d' = calls d @ [ErrorCallback 0 e]))) \<and>
   (reachable d \<and> (\<forall>x. arm x \<noteq> Inl (Panic m)) \<longrightarrow>
      Arm reset arm d \<noteq> Inl (Panic m) \<and> Reset reset d \<noteq> Inl (Panic m) \<and>
      (\<forall>i<length (stages d). Configure_callback arm i w d \<noteq> Inl (Panic m))) \<and>
   ShapedPulseStage_Arm pins ticks s \<noteq> Inl (Panic m)"
proof (intro conjI)
  show "NewMassDriver ecb dcb sts =
      (if 8 < length sts then Inl (Panic ''Too many stages specified'')
       else if sts = [] then Inl (Panic ''Too few stages specified'')
       else Inr \<lparr>stages = sts, timestamps = replicate (length sts) 0, currentStage = - 1,
                 state = Idle, errorCallback = ecb, doneCallback = dcb, calls = []\<rparr>)"
    by (rule NewMassDriver_eq)
  show "NewShapedPulseStage trig sens sh =
      (if length sh < 2 \<or> odd (length sh) then Inl (Panic ''invalid pulse train'')
       else Inr \<lparr>trigger = trig, sense = sens, shape = \<lparr>durations = sh, r = 0\<rparr>,
                 senseStart = 0, senseEnd = 0, triggerStart = 0, triggerEnd = 0,
                 sstate = Idle, t = 0, val = False\<rparr>)"
    by (rule NewShapedPulseStage_eq)
  show "length sh < 2 \<or> odd (length sh) \<longrightarrow> SetShape sh s = (Some ErrInvalidPulseTrain, s)"
    by (auto simp: SetShape_def odd_iff_mod_2_eq_one)
  show "mode \<noteq> PinInput \<and> mode \<noteq> PinInputPulldown \<and> mode \<noteq> PinInputPullup \<longrightarrow>
      ShapedPulseStage_Configure mode pc s = (Some ErrInvalidPinMode, s)"
    by (simp add: ShapedPulseStage_Configure_def)
  show "idx < 0 \<or> int (length (stages d)) \<le> idx \<longrightarrow> GetStage idx d = Inl ErrInvalidStage"
    by (auto simp: GetStage_def)
  show "state d \<noteq> Idle \<longrightarrow>
      Arm reset arm d = Inr (Some ErrDriverBusy, report_error (- 1) ErrDriverBusy d)"
    by (simp add: Arm_def)
  show "state d = Idle \<and> stages d \<noteq> [] \<and> arm (reset (stages d ! 0)) = Inr (Some e, s') \<longrightarrow>
      (\<exists>d'. Arm reset arm d = Inr (Some e, d') \<and>
            (errorCallback d \<longrightarrow> calls d' = calls d @ [ErrorCallback 0 e]))"
  proof
    assume a: "state d = Idle \<and> stages d \<noteq> [] \<and> arm (reset (stages d ! 0)) = Inr (Some e, s')"
    then have "Arm reset arm d =
      Inr (Some e, report_error 0 e
        ((setState Armed 0 (d\<lparr>stages := map reset (stages d)\<rparr>))\<lparr>stages := (map reset (stages d))[0 := s']\<rparr>))"
      by (intro Arm_stage_error) simp_all
    then show "\<exists>d'. Arm reset arm d = Inr (Some e, d') \<and>
            (errorCallback d \<longrightarrow> calls d' = calls d @ [ErrorCallback 0 e])"
      by (simp add: report_error_def setState_simps)
  qed
  show "reachable d \<and> (\<forall>x. arm x \<noteq> Inl (Panic m)) \<longrightarrow>
      Arm reset arm d \<noteq> Inl (Panic m) \<and> Reset reset d \<noteq> Inl (Panic m) \<and>
      (\<forall>i<length (stages d). Configure_callback arm i w d \<noteq> Inl (Panic m))"
  proof
    assume a: "reachable d \<and> (\<forall>x. arm x \<noteq> Inl (Panic m))"
    then have inv: "driver_inv d" and arm: "\<And>x. arm x \<noteq> Inl (Panic m)"
      by (simp_all add: reachable_inv)
    have "Arm reset arm d \<noteq> Inl (Panic m)"
      using inv arm by (rule Arm_no_panic)
    moreover have "Reset reset d \<noteq> Inl (Panic m)"
      by (simp add: Reset_total [OF inv])
    moreover have "\<forall>i<length (stages d). Configure_callback arm i w d \<noteq> Inl (Panic m)"
    proof (intro allI impI)
      fix i assume "i < length (stages d)"
      with inv show "Configure_callback arm i w d \<noteq> Inl (Panic m)"
        using arm by (rule Configure_callback_no_panic)
    qed
    ultimately show "Arm reset arm d \<noteq> Inl (Panic m) \<and> Reset reset d \<noteq> Inl (Panic m) \<and>
      (\<forall>i<length (stages d). Configure_callback arm i w d \<noteq> Inl (Panic m))"
      by simp
  qed
  show "ShapedPulseStage_Arm pins ticks s \<noteq> Inl (Panic m)"
    by (rule Arm_shaped_no_panic)
qed

text \<open>
  The armed driver of the example for the busy driver, the invalid index and the
  operations that do not panic; the idle one with a stage whose \<^verbatim>\<open>Arm\<close> fails.
\<close>

theorem panics_only_from_constructors_witness:
  "reachable massDriver_armed \<and> state massDriver_armed \<noteq> Idle \<and>
   Arm ShapedPulseStage_Reset (ShapedPulseStage_Arm pins_high 1) massDriver_armed =
     Inr (Some ErrDriverBusy, massDriver_armed\<lparr>calls := [ErrorCallback (- 1) ErrDriverBusy]\<rparr>) \<and>
   Reset ShapedPulseStage_Reset massDriver_armed \<noteq> Inl (Panic ''index out of range'') \<and>
   Configure_callback (ShapedPulseStage_Arm pins_high 1) 1 5000 massDriver_armed
     \<noteq> Inl (Panic ''index out of range'') \<and>
   GetStage 2 massDriver_armed = Inl ErrInvalidStage \<and>
   SetShape [2000000] stageB = (Some ErrInvalidPulseTrain, stageB) \<and>
   ShapedPulseStage_Configure PinOutput PinFalling stageB = (Some ErrInvalidPinMode, stageB) \<and>
   state massDriver = Idle \<and> stages massDriver \<noteq> [] \<and>
   refusing_Arm (ShapedPulseStage_Reset (stages massDriver ! 0)) = Inr (Some ErrSensePin, stageA) \<and>
   Arm ShapedPulseStage_Reset refusing_Arm massDriver =
     Inr (Some ErrSensePin,
          massDriver\<lparr>currentStage := 0, state := Armed, calls := [ErrorCallback 0 ErrSensePin]\<rparr>)"
proof -
  have r0: "reachable massDriver"
    using example_setup(3) by (rule reachable.new)
  have r: "reachable massDriver_armed"
    using r0 example_setup(5) [of 1] by (rule reachable.armed)
  have np: "\<forall>x. ShapedPulseStage_Arm pins_high 1 x \<noteq> Inl (Panic ''index out of range'')"
    by (simp add: Arm_shaped_no_panic)
  have h1: "state massDriver_armed \<noteq> Idle" "(2::int) < 0 \<or> int (length (stages massDriver_armed)) \<le> 2"
    "(1::nat) < length (stages massDriver_armed)"
    by (simp_all add: massDriver_armed_def massDriver_def)
  have h2: "length [2000000::int] < 2 \<or> odd (length [2000000::int])"
    "PinOutput \<noteq> PinInput \<and> PinOutput \<noteq> PinInputPulldown \<and> PinOutput \<noteq> PinInputPullup"
    by simp_all
  have h3: "state massDriver = Idle" "stages massDriver \<noteq> []"
    "refusing_Arm (ShapedPulseStage_Reset (stages massDriver ! 0)) = Inr (Some ErrSensePin, stageA)"
    by (simp_all add: massDriver_def refusing_Arm_def ShapedPulseStage_Reset_def stageA_def)
  note T1 = panics_only_from_constructors [where sh = "[2000000]" and s = stageB
      and mode = PinOutput and pc = PinFalling and idx = 2 and d = massDriver_armed
      and reset = ShapedPulseStage_Reset and arm = "ShapedPulseStage_Arm pins_high 1"
      and m = "''index out of range''" and w = 5000]
  note T2 = panics_only_from_constructors [where d = massDriver
      and reset = ShapedPulseStage_Reset and arm = refusing_Arm and e = ErrSensePin and s' = stageA]
  have a: "Arm ShapedPulseStage_Reset (ShapedPulseStage_Arm pins_high 1) massDriver_armed =
     Inr (Some ErrDriverBusy, massDriver_armed\<lparr>calls := [ErrorCallback (- 1) ErrDriverBusy]\<rparr>)"
  proof -
    from T1 h1(1)
    have "Arm ShapedPulseStage_Reset (ShapedPulseStage_Arm pins_high 1) massDriver_armed =
      Inr (Some ErrDriverBusy, report_error (- 1) ErrDriverBusy massDriver_armed)"
      by blast
    then show ?thesis
      by (simp add: report_error_def massDriver_armed_def massDriver_def)
  qed
  have b: "Reset ShapedPulseStage_Reset massDriver_armed \<noteq> Inl (Panic ''index out of range'')"
    "Configure_callback (ShapedPulseStage_Arm pins_high 1) 1 5000 massDriver_armed
     \<noteq> Inl (Panic ''index out of range'')"
    using T1 r np h1(3) by blast+
  have c: "GetStage 2 massDriver_armed = Inl ErrInvalidStage"
    "SetShape [2000000] stageB = (Some ErrInvalidPulseTrain, stageB)"
    "ShapedPulseStage_Configure PinOutput PinFalling stageB = (Some ErrInvalidPinMode, stageB)"
    using T1 h1(2) h2 by blast+
  have d: "Arm ShapedPulseStage_Reset refusing_Arm massDriver =
     Inr (Some ErrSensePin,
          massDriver\<lparr>currentStage := 0, state := Armed, calls := [ErrorCallback 0 ErrSensePin]\<rparr>)"
    by (simp add: Arm_def massDriver_def refusing_Arm_def ShapedPulseStage_Reset_def stageA_def
        stageB_def setState_def report_error_def)
  from T2 h3 have "\<exists>d'. Arm ShapedPulseStage_Reset refusing_Arm massDriver = Inr (Some ErrSensePin, d') \<and>
      (errorCallback massDriver \<longrightarrow> calls d' = calls massDriver @ [ErrorCallback 0 ErrSensePin])"
    by blast
  with r h1(1) a b c d h3 show ?thesis
    by simp
qed

text \<open>
  No stage, nine stages, and a shape of one duration: each constructor call ends in a
  panic.
\<close>

theorem constructors_panic:
  "NewMassDriver True True ([] :: ShapedPulseStage list) = Inl (Panic ''Too few stages specified'') \<and>
   NewMassDriver True True (replicate 9 stageB) = Inl (Panic ''Too many stages specified'') \<and>
   NewShapedPulseStage 15 19 [2000000] = Inl (Panic ''invalid pulse train'')"
  by (simp add: NewMassDriver_def maxStages_def NewShapedPulseStage_def SetShape_def)

end
